theory Spec2Isabelle
  imports Main
begin

section \<open>Exceptions, statements and the trace of a run\<close>

text \<open>
  The module \<^verbatim>\<open>sql_database.py\<close> talks to three things outside itself: the MySQL
  driver (\<^verbatim>\<open>mysql.connector\<close>), the clock (\<^verbatim>\<open>sleep\<close>) and the terminal
  (\<^verbatim>\<open>input\<close>, \<^verbatim>\<open>print\<close>). A run is modelled by explicit state passing over a
  \<open>world\<close>; every call that leaves the module is appended to the world's trace, and an
  exception is a value \<open>Inl e\<close>.

  \<open>MySQLError\<close> stands for \<^verbatim>\<open>mysql.connector.Error\<close> and its subclasses (the only
  exceptions the \<^verbatim>\<open>except\<close> clauses of the module catch), \<open>EOFError\<close> is what
  \<^verbatim>\<open>input()\<close> raises at the end of the input, \<open>OtherError\<close> is any other exception.
\<close>

datatype exn = MySQLError string | EOFError | OtherError string

fun is_mysql_error :: "exn \<Rightarrow> bool" where
  "is_mysql_error (MySQLError m) = True"
| "is_mysql_error e = False"

datatype val = NullV | IntV int | StrV string | FloatV int int

datatype sqltype = Int_type | Varchar nat | Float_type

record column =
  col_name :: string
  col_type :: sqltype
  auto_increment :: bool
  primary_key :: bool
  unique_key :: bool

record foreign_key =
  fk_column :: string
  ref_table :: string
  ref_column :: string
  on_delete_cascade :: bool

record table_def =
  tbl_name :: string
  tbl_columns :: "column list"
  tbl_fks :: "foreign_key list"

text \<open>
  The statements the module passes to \<^verbatim>\<open>cursor.execute\<close>, by their structure:
  \<open>SelectSchemaName s\<close> is
  \<^verbatim>\<open>SELECT SCHEMA_NAME FROM INFORMATION_SCHEMA.SCHEMATA WHERE SCHEMA_NAME = "s"\<close>,
  \<open>InsertInto t c v\<close> is \<^verbatim>\<open>INSERT INTO t (c) VALUES (%s)\<close> with the parameter
  tuple \<^verbatim>\<open>(v,)\<close>. \<open>DeleteFrom t k\<close> (\<^verbatim>\<open>DELETE FROM t WHERE id = k\<close>) is not
  issued by the module; it is what a later user of the schema issues.
\<close>

datatype stmt =
    SelectSchemaName string
  | DropDatabase string
  | CreateDatabase string
  | Use string
  | CreateTable table_def
  | InsertInto string string string
  | DeleteFrom string int

type_synonym row = "(string \<times> val) list"

record table_state =
  tdef :: table_def
  trows :: "row list"
  next_id :: int

type_synonym database = "(string \<times> table_state) list"

record server =
  catalog :: "string \<rightharpoonup> database"
  current :: "string option"
  pending :: "val list list"

datatype event =
    Connected nat "string option"
  | ConnectFailed "string option" exn
  | Sleep nat
  | Close nat
  | Cursor nat
  | Execute stmt
  | Fetchone
  | Commit nat
  | Input string "string option"
  | Print string

text \<open>
  The world: \<open>connector k\<close> is the outcome of the \<open>k\<close>-th call of
  \<^verbatim>\<open>mysql.connector.connect\<close> (\<open>None\<close>: it returns a connection, \<open>Some e\<close>: it
  raises \<open>e\<close>); \<open>faults n\<close> is the exception, if any, that the driver raises at the call
  made when the trace has length \<open>n\<close> (a lost connection, a denied permission, a
  syntax error); \<open>stdin k\<close> is the \<open>k\<close>-th line the operator types (\<open>None\<close>: end of
  input).
\<close>

record world =
  connector :: "nat \<Rightarrow> exn option"
  faults :: "nat \<Rightarrow> exn option"
  stdin :: "nat \<Rightarrow> string option"
  attempts :: nat
  consumed :: nat
  server :: server
  trace :: "event list"

definition emit :: "event \<Rightarrow> world \<Rightarrow> world" where
  "emit ev w = w\<lparr>trace := trace w @ [ev]\<rparr>"

section \<open>The connection manager\<close>

text \<open>\<^verbatim>\<open>schema = 'application_project_gaube'\<close> (line 22).\<close>

definition schema :: string where
  "schema = ''application_project_gaube''"

text \<open>
  \<^verbatim>\<open>mysql.connector.connect(host='localhost', user='root', password='',
  database=database)\<close>: the connector decides whether the server is reached; a session
  bound to a database that does not exist is refused by the server.
\<close>

definition connect :: "string option \<Rightarrow> world \<Rightarrow> (exn + nat) \<times> world" where
  "connect database w =
     (let k = attempts w; w1 = w\<lparr>attempts := k + 1\<rparr> in
      case connector w k of
        Some e \<Rightarrow> (Inl e, emit (ConnectFailed database e) w1)
      | None \<Rightarrow>
          (case database of
             None \<Rightarrow> (Inr k, emit (Connected k None) (w1\<lparr>server := (server w1)\<lparr>current := None\<rparr>\<rparr>))
           | Some d \<Rightarrow>
               if d \<in> dom (catalog (server w1))
               then (Inr k, emit (Connected k (Some d)) (w1\<lparr>server := (server w1)\<lparr>current := Some d\<rparr>\<rparr>))
               else (Inl (MySQLError ''1049 Unknown database''),
                     emit (ConnectFailed database (MySQLError ''1049 Unknown database'')) w1)))"

definition sleep :: "nat \<Rightarrow> world \<Rightarrow> world" where
  "sleep secs w = emit (Sleep secs) w"

text \<open>
  Lines 45-60, the retry loop entered after the first attempt has failed:
  \<^verbatim>\<open>
  while True:
      if tries > 5:
          raise mysql.connector.Error('Could not connect to database')
      sleep(60)
      try:
          db = mysql.connector.connect(...)
          break
      except mysql.connector.Error:
          tries += 1
  \<close>
  An exception of \<^verbatim>\<open>connect\<close> that is not a \<^verbatim>\<open>mysql.connector.Error\<close> is not
  caught and leaves the loop.
\<close>

function retry_loop :: "string option \<Rightarrow> nat \<Rightarrow> world \<Rightarrow> (exn + nat) \<times> world" where
  "retry_loop database tries w =
     (if tries > 5 then (Inl (MySQLError ''Could not connect to database''), w)
      else
        (case connect database (sleep 60 w) of
           (Inr db, w1) \<Rightarrow> (Inr db, w1)
         | (Inl e, w1) \<Rightarrow>
             if is_mysql_error e then retry_loop database (tries + 1) w1
             else (Inl e, w1)))"
  by pat_completeness auto
termination
  by (relation "measure (\<lambda>(database, tries, w). 6 - tries)") auto

text \<open>
  Lines 37-60: one attempt at once; the retry loop with \<^verbatim>\<open>tries = 0\<close> when it
  raises a \<^verbatim>\<open>mysql.connector.Error\<close>.
\<close>

definition establish :: "string option \<Rightarrow> world \<Rightarrow> (exn + nat) \<times> world" where
  "establish database w =
     (case connect database w of
        (Inr db, w1) \<Rightarrow> (Inr db, w1)
      | (Inl e, w1) \<Rightarrow>
          if is_mysql_error e then retry_loop database 0 w1
          else (Inl e, w1))"

text \<open>
  The ways the body of a \<^verbatim>\<open>with\<close> block is left: it runs to its end, the enclosing
  function returns from inside it, or an exception is raised inside it.
\<close>

datatype 'a exit = Normal | Return 'a | Raise exn

text \<open>
  Lines 64-66: \<^verbatim>\<open>finally: if db is not None: db.close()\<close>.
\<close>

definition finally_close :: "nat option \<Rightarrow> world \<Rightarrow> world" where
  "finally_close db w = (case db of None \<Rightarrow> w | Some c \<Rightarrow> emit (Close c) w)"

text \<open>
  \<^verbatim>\<open>with connect_to_localhost(database) as db: body\<close>. The generator starts with
  \<^verbatim>\<open>db = None\<close>; when no connection is established the exception leaves through
  \<^verbatim>\<open>finally\<close> with \<^verbatim>\<open>db\<close> still \<^verbatim>\<open>None\<close> and the body never runs. Otherwise
  \<^verbatim>\<open>db\<close> is yielded to the body, and however the body is left, the generator is
  resumed (or the exception is thrown into it) at the \<^verbatim>\<open>yield\<close>, so \<^verbatim>\<open>finally\<close>
  runs and the exit of the body is passed on. A body that does not terminate
  (\<open>None\<close>) never leaves the block.
\<close>

definition connect_to_localhost ::
  "string option \<Rightarrow> (nat \<Rightarrow> world \<Rightarrow> ('a exit \<times> world) option) \<Rightarrow> world
     \<Rightarrow> ('a exit \<times> world) option" where
  "connect_to_localhost database body w =
     (case establish database w of
        (Inl e, w1) \<Rightarrow> Some (Raise e, finally_close None w1)
      | (Inr db, w1) \<Rightarrow>
          (case body db w1 of
             None \<Rightarrow> None
           | Some (x, w2) \<Rightarrow> Some (x, finally_close (Some db) w2)))"


section \<open>The driver calls of \<^verbatim>\<open>create_schema\<close>\<close>

text \<open>
  \<^verbatim>\<open>db.cursor()\<close>, \<^verbatim>\<open>cursor.fetchone()\<close> and \<^verbatim>\<open>db.commit()\<close>: each is logged
  and raises when the driver has a fault at that call. \<^verbatim>\<open>fetchone\<close> takes the
  next row of the pending result, \<^verbatim>\<open>None\<close> when there is none.
\<close>

definition cursor :: "nat \<Rightarrow> world \<Rightarrow> (exn + nat) \<times> world" where
  "cursor db w =
     (case faults w (length (trace w)) of
        Some e \<Rightarrow> (Inl e, emit (Cursor db) w)
      | None \<Rightarrow> (Inr db, emit (Cursor db) w))"

definition fetchone :: "world \<Rightarrow> (exn + val list option) \<times> world" where
  "fetchone w =
     (case faults w (length (trace w)) of
        Some e \<Rightarrow> (Inl e, emit Fetchone w)
      | None \<Rightarrow>
          (case pending (server w) of
             [] \<Rightarrow> (Inr None, emit Fetchone w)
           | r # rs \<Rightarrow> (Inr (Some r), emit Fetchone (w\<lparr>server := (server w)\<lparr>pending := rs\<rparr>\<rparr>))))"

definition commit :: "nat \<Rightarrow> world \<Rightarrow> (exn + unit) \<times> world" where
  "commit db w =
     (case faults w (length (trace w)) of
        Some e \<Rightarrow> (Inl e, emit (Commit db) w)
      | None \<Rightarrow> (Inr (), emit (Commit db) w))"

text \<open>
  \<^verbatim>\<open>input(prompt)\<close> reads the next line of the operator, \<^verbatim>\<open>EOFError\<close> at the end
  of the input; \<^verbatim>\<open>print(msg)\<close>.
\<close>

definition input :: "string \<Rightarrow> world \<Rightarrow> (exn + string) \<times> world" where
  "input prompt w =
     (case stdin w (consumed w) of
        None \<Rightarrow> (Inl EOFError, emit (Input prompt None) w)
      | Some line \<Rightarrow> (Inr line, emit (Input prompt (Some line)) (w\<lparr>consumed := consumed w + 1\<rparr>)))"

definition print :: "string \<Rightarrow> world \<Rightarrow> world" where
  "print msg w = emit (Print msg) w"

text \<open>
  \<^verbatim>\<open>str.lower()\<close> on the bytes of the string: the letters \<^verbatim>\<open>A\<close> to \<^verbatim>\<open>Z\<close>
  become \<^verbatim>\<open>a\<close> to \<^verbatim>\<open>z\<close>, every other byte stays.
\<close>

definition lower_char :: "char \<Rightarrow> char" where
  "lower_char c =
     (case map_of (zip ''ABCDEFGHIJKLMNOPQRSTUVWXYZ'' ''abcdefghijklmnopqrstuvwxyz'') c of
        None \<Rightarrow> c
      | Some l \<Rightarrow> l)"

definition lower :: "string \<Rightarrow> string" where
  "lower s = map lower_char s"

section \<open>The server\<close>

text \<open>
  The MySQL server is not part of the module. It is modelled as far as the statements
  above exercise it: a catalog of databases, each a list of tables in the order of their
  creation, the database the session is bound to, and the rows of the last query that
  \<^verbatim>\<open>fetchone\<close> has not taken yet. A statement that the server refuses raises a
  \<^verbatim>\<open>mysql.connector.Error\<close> and changes nothing. The text of a statement is not
  parsed: a name is an identifier, and a statement refused for its syntax is a fault of
  the world.
\<close>

definition cell :: "string \<Rightarrow> row \<Rightarrow> val" where
  "cell c r = (case map_of r c of None \<Rightarrow> NullV | Some v \<Rightarrow> v)"

definition rows_of :: "string \<Rightarrow> database \<Rightarrow> row list" where
  "rows_of t db = (case map_of db t of None \<Rightarrow> [] | Some ts \<Rightarrow> trows ts)"

definition set_rows :: "string \<Rightarrow> row list \<Rightarrow> database \<Rightarrow> database" where
  "set_rows t rs db = map (\<lambda>(t', ts). if t' = t then (t', ts\<lparr>trows := rs\<rparr>) else (t', ts)) db"

text \<open>
  \<^verbatim>\<open>CREATE TABLE\<close>: refused when the table exists, and when a foreign key names a
  column the table does not have or a table or column that does not exist (yet).
\<close>

definition fk_target_exists :: "database \<Rightarrow> table_def \<Rightarrow> foreign_key \<Rightarrow> bool" where
  "fk_target_exists db td fk =
     (fk_column fk \<in> set (map col_name (tbl_columns td)) \<and>
      (case map_of db (ref_table fk) of
         None \<Rightarrow> False
       | Some ts \<Rightarrow> ref_column fk \<in> set (map col_name (tbl_columns (tdef ts)))))"

definition create_table :: "table_def \<Rightarrow> database \<Rightarrow> exn + database" where
  "create_table td db =
     (case map_of db (tbl_name td) of
        Some ts \<Rightarrow> Inl (MySQLError ''1050 Table already exists'')
      | None \<Rightarrow>
          if list_all (fk_target_exists db td) (tbl_fks td)
          then Inr (db @ [(tbl_name td, \<lparr>tdef = td, trows = [], next_id = 1\<rparr>)])
          else Inl (MySQLError ''1824 Failed to open the referenced table''))"

text \<open>
  \<^verbatim>\<open>INSERT INTO t (c) VALUES (%s)\<close> with a string parameter: the new row has the
  parameter in column \<open>c\<close>, the next number in an \<^verbatim>\<open>AUTO_INCREMENT\<close> column and
  \<^verbatim>\<open>NULL\<close> elsewhere. A string too long for the column, a value already present in a
  \<^verbatim>\<open>UNIQUE\<close> column and a column that is not a \<^verbatim>\<open>VARCHAR\<close> are refused (the
  conversion of a string to a number is not modelled).
\<close>

definition new_row :: "table_state \<Rightarrow> string \<Rightarrow> string \<Rightarrow> row" where
  "new_row ts c v =
     map (\<lambda>k. (col_name k,
                if col_name k = c then StrV v
                else if auto_increment k then IntV (next_id ts)
                else NullV)) (tbl_columns (tdef ts))"

definition append_row :: "string \<Rightarrow> string \<Rightarrow> string \<Rightarrow> database \<Rightarrow> database" where
  "append_row t c v db =
     map (\<lambda>(t', ts). if t' = t
                      then (t', ts\<lparr>trows := trows ts @ [new_row ts c v], next_id := next_id ts + 1\<rparr>)
                      else (t', ts)) db"

definition insert_into :: "string \<Rightarrow> string \<Rightarrow> string \<Rightarrow> database \<Rightarrow> exn + database" where
  "insert_into t c v db =
     (case map_of db t of
        None \<Rightarrow> Inl (MySQLError ''1146 Table does not exist'')
      | Some ts \<Rightarrow>
          (case find (\<lambda>col. col_name col = c) (tbl_columns (tdef ts)) of
             None \<Rightarrow> Inl (MySQLError ''1054 Unknown column'')
           | Some col \<Rightarrow>
               (case col_type col of
                  Int_type \<Rightarrow> Inl (MySQLError ''1366 Incorrect integer value'')
                | Float_type \<Rightarrow> Inl (MySQLError ''1366 Incorrect decimal value'')
                | Varchar n \<Rightarrow>
                    if length v > n then Inl (MySQLError ''1406 Data too long for column'')
                    else if unique_key col \<and> StrV v \<in> set (map (cell c) (trows ts))
                    then Inl (MySQLError ''1062 Duplicate entry'')
                    else Inr (append_row t c v db))))"

text \<open>
  \<^verbatim>\<open>DELETE FROM t WHERE id = k\<close>. The rows to delete are the victims. A row of
  another table references a victim through a foreign key when its key column is not
  \<^verbatim>\<open>NULL\<close> and equals the referenced column of the victim. Such rows are deleted in
  their turn when the key is declared \<^verbatim>\<open>ON DELETE CASCADE\<close>; otherwise the
  statement is refused. The server gives up when cascades nest more than 15 deep.
\<close>

definition references :: "foreign_key \<Rightarrow> row list \<Rightarrow> row \<Rightarrow> bool" where
  "references fk victims r =
     (cell (fk_column fk) r \<noteq> NullV \<and>
      cell (fk_column fk) r \<in> set (map (cell (ref_column fk)) victims))"

definition referencing :: "string \<Rightarrow> database \<Rightarrow> (string \<times> foreign_key) list" where
  "referencing t db =
     concat (map (\<lambda>(t', ts). map (Pair t') (filter (\<lambda>fk. ref_table fk = t) (tbl_fks (tdef ts)))) db)"

fun delete_rows :: "nat \<Rightarrow> string \<Rightarrow> row list \<Rightarrow> database \<Rightarrow> exn + database" where
  "delete_rows 0 t victims db =
     (if victims = [] then Inr db
      else Inl (MySQLError ''3008 Foreign key cascade delete exceeds max depth of 15''))"
| "delete_rows (Suc depth) t victims db =
     (if victims = [] then Inr db
      else
        (case fold (\<lambda>(t', fk) acc.
                 case acc of
                   Inl e \<Rightarrow> Inl e
                 | Inr db1 \<Rightarrow>
                     if filter (references fk victims) (rows_of t' db1) = [] then Inr db1
                     else if on_delete_cascade fk
                     then delete_rows depth t' (filter (references fk victims) (rows_of t' db1)) db1
                     else Inl (MySQLError ''1451 Cannot delete or update a parent row''))
               (referencing t db) (Inr db) of
           Inl e \<Rightarrow> Inl e
         | Inr db2 \<Rightarrow> Inr (set_rows t (filter (\<lambda>r. r \<notin> set victims) (rows_of t db2)) db2)))"

definition delete_from :: "string \<Rightarrow> int \<Rightarrow> database \<Rightarrow> exn + database" where
  "delete_from t k db =
     (case map_of db t of
        None \<Rightarrow> Inl (MySQLError ''1146 Table does not exist'')
      | Some ts \<Rightarrow>
          if ''id'' \<in> set (map col_name (tbl_columns (tdef ts)))
          then delete_rows 15 t (filter (\<lambda>r. cell ''id'' r = IntV k) (trows ts)) db
          else Inl (MySQLError ''1054 Unknown column''))"

definition in_current :: "server \<Rightarrow> (database \<Rightarrow> exn + database) \<Rightarrow> exn + server" where
  "in_current srv f =
     (case current srv of
        None \<Rightarrow> Inl (MySQLError ''1046 No database selected'')
      | Some d \<Rightarrow>
          (case catalog srv d of
             None \<Rightarrow> Inl (MySQLError ''1049 Unknown database'')
           | Some db \<Rightarrow>
               (case f db of
                  Inl e \<Rightarrow> Inl e
                | Inr db' \<Rightarrow> Inr (srv\<lparr>catalog := (catalog srv)(d \<mapsto> db'), pending := []\<rparr>))))"

fun run_stmt :: "stmt \<Rightarrow> server \<Rightarrow> exn + server" where
  "run_stmt (SelectSchemaName s) srv =
     (case catalog srv s of
        None \<Rightarrow> Inr (srv\<lparr>pending := []\<rparr>)
      | Some db \<Rightarrow> Inr (srv\<lparr>pending := [[StrV s]]\<rparr>))"
| "run_stmt (DropDatabase s) srv =
     (case catalog srv s of
        None \<Rightarrow> Inl (MySQLError ''1008 Cannot drop database; database does not exist'')
      | Some db \<Rightarrow>
          Inr (srv\<lparr>catalog := (catalog srv)(s := None),
                   current := (if current srv = Some s then None else current srv),
                   pending := []\<rparr>))"
| "run_stmt (CreateDatabase s) srv =
     (case catalog srv s of
        Some db \<Rightarrow> Inl (MySQLError ''1007 Cannot create database; database exists'')
      | None \<Rightarrow> Inr (srv\<lparr>catalog := (catalog srv)(s \<mapsto> []), pending := []\<rparr>))"
| "run_stmt (Use s) srv =
     (case catalog srv s of
        None \<Rightarrow> Inl (MySQLError ''1049 Unknown database'')
      | Some db \<Rightarrow> Inr (srv\<lparr>current := Some s, pending := []\<rparr>))"
| "run_stmt (CreateTable td) srv = in_current srv (create_table td)"
| "run_stmt (InsertInto t c v) srv = in_current srv (insert_into t c v)"
| "run_stmt (DeleteFrom t k) srv = in_current srv (delete_from t k)"

text \<open>
  \<^verbatim>\<open>cursor.execute(statement)\<close>: logged; it raises when the driver has a fault at
  this call or the server refuses the statement.
\<close>

definition execute :: "stmt \<Rightarrow> world \<Rightarrow> (exn + unit) \<times> world" where
  "execute s w =
     (case faults w (length (trace w)) of
        Some e \<Rightarrow> (Inl e, emit (Execute s) w)
      | None \<Rightarrow>
          (case run_stmt s (server w) of
             Inl e \<Rightarrow> (Inl e, emit (Execute s) w)
           | Inr srv \<Rightarrow> (Inr (), emit (Execute s) (w\<lparr>server := srv\<rparr>))))"


section \<open>Schema provisioning\<close>

text \<open>
  The six \<^verbatim>\<open>CREATE TABLE\<close> statements of lines 104-167. Every table starts with
  \<^verbatim>\<open>id INT AUTO_INCREMENT PRIMARY KEY\<close>.
\<close>

definition id_column :: column where
  "id_column = \<lparr>col_name = ''id'', col_type = Int_type, auto_increment = True,
                 primary_key = True, unique_key = False\<rparr>"

definition plain :: "string \<Rightarrow> sqltype \<Rightarrow> column" where
  "plain n t = \<lparr>col_name = n, col_type = t, auto_increment = False,
                primary_key = False, unique_key = False\<rparr>"

definition foreign_key_to :: "string \<Rightarrow> string \<Rightarrow> string \<Rightarrow> bool \<Rightarrow> foreign_key" where
  "foreign_key_to c t rc cascade =
     \<lparr>fk_column = c, ref_table = t, ref_column = rc, on_delete_cascade = cascade\<rparr>"

definition dataset :: table_def where
  "dataset = \<lparr>tbl_name = ''dataset'',
     tbl_columns = [id_column, (plain ''student'' (Varchar 5))\<lparr>unique_key := True\<rparr>],
     tbl_fks = []\<rparr>"

definition exam :: table_def where
  "exam = \<lparr>tbl_name = ''exam'',
     tbl_columns = [id_column, plain ''term'' (Varchar 10)],
     tbl_fks = []\<rparr>"

definition hrv :: table_def where
  "hrv = \<lparr>tbl_name = ''hrv'',
     tbl_columns = [id_column, plain ''parameter'' (Varchar 15)],
     tbl_fks = []\<rparr>"

definition inter_beat_interval :: table_def where
  "inter_beat_interval = \<lparr>tbl_name = ''inter_beat_interval'',
     tbl_columns = [id_column, plain ''student_id'' Int_type, plain ''term_id'' Int_type,
       plain ''ibi_value_id'' Int_type, plain ''ibi_value'' Int_type, plain ''timestamp'' Int_type],
     tbl_fks = [foreign_key_to ''student_id'' ''dataset'' ''id'' True,
       foreign_key_to ''term_id'' ''exam'' ''id'' False]\<rparr>"

definition master_data :: table_def where
  "master_data = \<lparr>tbl_name = ''master_data'',
     tbl_columns = [id_column, plain ''student_id'' Int_type, plain ''term_id'' Int_type,
       plain ''grade'' Int_type, plain ''nni_mean'' Float_type, plain ''sdnn'' Float_type,
       plain ''number_of_ibi'' Int_type, plain ''duration_in_h'' Float_type],
     tbl_fks = [foreign_key_to ''student_id'' ''dataset'' ''id'' True,
       foreign_key_to ''term_id'' ''exam'' ''id'' False]\<rparr>"

definition window_values :: table_def where
  "window_values = \<lparr>tbl_name = ''window_values'',
     tbl_columns = [id_column, plain ''student_id'' Int_type, plain ''term_id'' Int_type,
       plain ''window_id'' Int_type, plain ''timestamp'' Int_type, plain ''parameter_id'' Int_type,
       plain ''hrv_value'' Float_type, plain ''number_of_ibi'' Int_type],
     tbl_fks = [foreign_key_to ''student_id'' ''dataset'' ''id'' True,
       foreign_key_to ''term_id'' ''exam'' ''id'' False,
       foreign_key_to ''parameter_id'' ''hrv'' ''id'' False]\<rparr>"

text \<open>A sequence of calls, left at the first one that raises.\<close>

fun run_all :: "(world \<Rightarrow> (exn + unit) \<times> world) list \<Rightarrow> world \<Rightarrow> (exn + unit) \<times> world" where
  "run_all [] w = (Inr (), w)"
| "run_all (step # steps) w =
     (case step w of
        (Inl e, w1) \<Rightarrow> (Inl e, w1)
      | (Inr u, w1) \<Rightarrow> run_all steps w1)"

text \<open>
  Lines 88-99, the prompt shown when the schema exists:
  \<^verbatim>\<open>
  while True:
      user_input = input('Do you want to delete it? (y/n): ')
      if user_input.lower() == 'y':
          cursor.execute(f"DROP DATABASE {schema}")
          print(f"Schema {schema} deleted successfully.")
          break
      elif user_input.lower() == 'n':
          return
      else:
          print('invalid input..')
  \<close>
  The loop is left by \<^verbatim>\<open>break\<close>, by the \<^verbatim>\<open>return\<close> of the function, or by an
  exception of \<^verbatim>\<open>input\<close> or \<^verbatim>\<open>execute\<close>. It has no bound: with an operator who
  never answers \<^verbatim>\<open>y\<close> or \<^verbatim>\<open>n\<close> it does not end, which is the value \<open>None\<close>.
\<close>

datatype loop_exit = Break | Return_from_function

partial_function (option) prompt_loop :: "world \<Rightarrow> ((exn + loop_exit) \<times> world) option" where
  "prompt_loop w =
     (case input ''Do you want to delete it? (y/n): '' w of
        (Inl e, w1) \<Rightarrow> Some (Inl e, w1)
      | (Inr user_input, w1) \<Rightarrow>
          if lower user_input = ''y'' then
            (case execute (DropDatabase schema) w1 of
               (Inl e, w2) \<Rightarrow> Some (Inl e, w2)
             | (Inr u, w2) \<Rightarrow>
                 Some (Inr Break, print (''Schema '' @ schema @ '' deleted successfully.'') w2))
          else if lower user_input = ''n'' then Some (Inr Return_from_function, w1)
          else prompt_loop (print ''invalid input..'' w1))"

declare prompt_loop.simps [code]

text \<open>
  Lines 101-175: \<^verbatim>\<open>CREATE DATABASE\<close>, \<^verbatim>\<open>USE\<close>, the six tables, the two
  \<^verbatim>\<open>for\<close> loops over the seed rows, and \<^verbatim>\<open>db.commit()\<close>. No exception is caught.
\<close>

definition provision :: "string \<Rightarrow> nat \<Rightarrow> world \<Rightarrow> unit exit \<times> world" where
  "provision schema_name db w =
     (case run_all
        ([execute (CreateDatabase schema_name),
          execute (Use schema_name),
          execute (CreateTable dataset),
          execute (CreateTable exam),
          execute (CreateTable hrv),
          execute (CreateTable inter_beat_interval),
          execute (CreateTable master_data),
          execute (CreateTable window_values)]
         @ map (\<lambda>term_type. execute (InsertInto ''exam'' ''term'' term_type))
             [''mid1'', ''mid2'', ''final'']
         @ map (\<lambda>parameter_type. execute (InsertInto ''hrv'' ''parameter'' parameter_type))
             [''nni_mean'', ''sdnn'']
         @ [commit db]) w of
        (Inl e, w1) \<Rightarrow> (Raise e, w1)
      | (Inr u, w1) \<Rightarrow> (Normal, w1))"

text \<open>
  Lines 83-99, the body of the \<^verbatim>\<open>with\<close> block up to the decision: the existence
  check asks the catalog for the module's constant \<^verbatim>\<open>schema\<close>;
  \<^verbatim>\<open>if cursor.fetchone():\<close> holds for a row that is a non-empty tuple.
\<close>

definition truthy :: "val list option \<Rightarrow> bool" where
  "truthy r = (case r of None \<Rightarrow> False | Some vs \<Rightarrow> vs \<noteq> [])"

definition create_schema_body :: "string \<Rightarrow> nat \<Rightarrow> world \<Rightarrow> (unit exit \<times> world) option" where
  "create_schema_body schema_name db w =
     (case cursor db w of
        (Inl e, w1) \<Rightarrow> Some (Raise e, w1)
      | (Inr cur, w1) \<Rightarrow>
          (case execute (SelectSchemaName schema) w1 of
             (Inl e, w2) \<Rightarrow> Some (Raise e, w2)
           | (Inr u, w2) \<Rightarrow>
               (case fetchone w2 of
                  (Inl e, w3) \<Rightarrow> Some (Raise e, w3)
                | (Inr r, w3) \<Rightarrow>
                    if truthy r then
                      (case prompt_loop (print (''Schema '' @ schema @ '' already exists.'') w3) of
                         None \<Rightarrow> None
                       | Some (Inl e, w4) \<Rightarrow> Some (Raise e, w4)
                       | Some (Inr Return_from_function, w4) \<Rightarrow> Some (Return (), w4)
                       | Some (Inr Break, w4) \<Rightarrow> Some (provision schema_name db w4))
                    else Some (provision schema_name db w3))))"

text \<open>
  \<^verbatim>\<open>create_schema(schema_name)\<close>: the body inside
  \<^verbatim>\<open>with connect_to_localhost() as db\<close>. The function returns \<^verbatim>\<open>None\<close> when the
  block runs to its end and when it returns from inside it; an exception goes to the
  caller.
\<close>

definition create_schema :: "string \<Rightarrow> world \<Rightarrow> ((exn + unit) \<times> world) option" where
  "create_schema schema_name w =
     (case connect_to_localhost None (create_schema_body schema_name) w of
        None \<Rightarrow> None
      | Some (Raise e, w1) \<Rightarrow> Some (Inl e, w1)
      | Some (Return u, w1) \<Rightarrow> Some (Inr (), w1)
      | Some (Normal, w1) \<Rightarrow> Some (Inr (), w1))"

section \<open>Reading a trace\<close>

text \<open>
  The events a run adds to the trace, and what they hold: the statements executed, the
  lines the operator typed, the tables created.
\<close>

definition issued :: "world \<Rightarrow> world \<Rightarrow> event list" where
  "issued w w' = drop (length (trace w)) (trace w')"

fun executed :: "event list \<Rightarrow> stmt list" where
  "executed [] = []"
| "executed (Execute s # evs) = s # executed evs"
| "executed (ev # evs) = executed evs"

fun answers :: "event list \<Rightarrow> string list" where
  "answers [] = []"
| "answers (Input p (Some line) # evs) = line # answers evs"
| "answers (ev # evs) = answers evs"

fun is_close :: "event \<Rightarrow> bool" where
  "is_close (Close c) = True"
| "is_close ev = False"

fun is_connected :: "event \<Rightarrow> bool" where
  "is_connected (Connected c d) = True"
| "is_connected ev = False"

fun is_commit :: "event \<Rightarrow> bool" where
  "is_commit (Commit c) = True"
| "is_commit ev = False"

definition closes :: "event list \<Rightarrow> nat" where
  "closes evs = length (filter is_close evs)"

definition opens :: "event list \<Rightarrow> nat" where
  "opens evs = length (filter is_connected evs)"

definition commits :: "event list \<Rightarrow> nat" where
  "commits evs = length (filter is_commit evs)"

text \<open>The statements of a complete provisioning, in the order of lines 101-173.\<close>

definition provisioning_statements :: "string \<Rightarrow> stmt list" where
  "provisioning_statements schema_name =
     [CreateDatabase schema_name, Use schema_name,
      CreateTable dataset, CreateTable exam, CreateTable hrv,
      CreateTable inter_beat_interval, CreateTable master_data, CreateTable window_values,
      InsertInto ''exam'' ''term'' ''mid1'', InsertInto ''exam'' ''term'' ''mid2'',
      InsertInto ''exam'' ''term'' ''final'',
      InsertInto ''hrv'' ''parameter'' ''nni_mean'', InsertInto ''hrv'' ''parameter'' ''sdnn'']"

text \<open>
  A connector that fails the first \<open>N\<close> attempts and succeeds from then on, an operator
  who types the given lines and then closes the input, and a world at its start: nothing
  logged, no fault of the driver, the given operator input and catalog.
\<close>

definition fails_then_succeeds :: "nat \<Rightarrow> nat \<Rightarrow> exn option" where
  "fails_then_succeeds N k =
     (if k < N then Some (MySQLError ''2003 Cannot connect to MySQL server'') else None)"

definition operator_types :: "string list \<Rightarrow> nat \<Rightarrow> string option" where
  "operator_types ls k = (if k < length ls then Some (ls ! k) else None)"

definition start :: "(nat \<Rightarrow> exn option) \<Rightarrow> (nat \<Rightarrow> string option) \<Rightarrow> (string \<rightharpoonup> database) \<Rightarrow> world" where
  "start c lines cat =
     \<lparr>connector = c, faults = (\<lambda>n. None), stdin = lines, attempts = 0, consumed = 0,
      server = \<lparr>catalog = cat, current = None, pending = []\<rparr>, trace = []\<rparr>"

text \<open>
  The events of connecting are attempts and waits; connecting leaves the oracles of the
  world, the operator's position and the catalog as they are.
\<close>

fun connect_event :: "event \<Rightarrow> bool" where
  "connect_event (Connected c d) = True"
| "connect_event (ConnectFailed d e) = True"
| "connect_event (Sleep n) = True"
| "connect_event ev = False"

definition connecting :: "event list \<Rightarrow> bool" where
  "connecting evs = list_all connect_event evs"

definition same_env :: "world \<Rightarrow> world \<Rightarrow> bool" where
  "same_env w w1 =
     (connector w1 = connector w \<and> faults w1 = faults w \<and> stdin w1 = stdin w \<and>
      consumed w1 = consumed w \<and> catalog (server w1) = catalog (server w) \<and>
      pending (server w1) = pending (server w))"

text \<open>
  The server after a list of statements, when it accepts them all. The operator's
  answers the prompt accepts. The message that announces the prompt. The events of a
  body up to the provisioning: either the check found nothing, or the operator answered
  \<^verbatim>\<open>y\<close> and the schema of the constant was dropped.
\<close>

fun run_stmts :: "stmt list \<Rightarrow> server \<Rightarrow> exn + server" where
  "run_stmts [] srv = Inr srv"
| "run_stmts (s # ss) srv =
     (case run_stmt s srv of Inl e \<Rightarrow> Inl e | Inr srv1 \<Rightarrow> run_stmts ss srv1)"

definition accepted :: "string \<Rightarrow> bool" where
  "accepted line = (lower line = ''y'' \<or> lower line = ''n'')"

definition prompted :: "event list \<Rightarrow> bool" where
  "prompted evs = (Print (''Schema '' @ schema @ '' already exists.'') \<in> set evs)"

definition quiet :: "event list \<Rightarrow> bool" where
  "quiet evs = (closes evs = 0 \<and> commits evs = 0 \<and> opens evs = 0)"

definition decided :: "event list \<Rightarrow> (string \<rightharpoonup> database) \<Rightarrow> server \<Rightarrow> bool" where
  "decided evs cat srv =
     ((executed evs = [SelectSchemaName schema] \<and> answers evs = [] \<and> \<not> prompted evs \<and>
       cat schema = None \<and> catalog srv = cat) \<or>
      (\<exists>inv l. executed evs = [SelectSchemaName schema, DropDatabase schema] \<and>
         answers evs = inv @ [l] \<and> list_all (\<lambda>l. \<not> accepted l) inv \<and> lower l = ''y'' \<and>
         prompted evs \<and> cat schema \<noteq> None \<and> catalog srv = cat(schema := None)))"

text \<open>
  The tables a list of statements creates, in their order, and what it means for such a
  list to respect the foreign keys: every table a key refers to has been created before
  (\<open>seen\<close>) the table that declares the key.
\<close>

fun created :: "stmt list \<Rightarrow> table_def list" where
  "created [] = []"
| "created (CreateTable td # ss) = td # created ss"
| "created (s # ss) = created ss"

fun dependency_ordered :: "string list \<Rightarrow> table_def list \<Rightarrow> bool" where
  "dependency_ordered seen [] = True"
| "dependency_ordered seen (td # tds) =
     (list_all (\<lambda>fk. ref_table fk \<in> set seen) (tbl_fks td) \<and>
      dependency_ordered (seen @ [tbl_name td]) tds)"

text \<open>
  The database that lines 104-173 build: six tables, three terms in \<^verbatim>\<open>exam\<close>, two
  parameters in \<^verbatim>\<open>hrv\<close>.
\<close>

definition provisioned_database :: database where
  "provisioned_database =
     [(''dataset'', \<lparr>tdef = dataset, trows = [], next_id = 1\<rparr>),
      (''exam'', \<lparr>tdef = exam,
         trows = [[(''id'', IntV 1), (''term'', StrV ''mid1'')],
                  [(''id'', IntV 2), (''term'', StrV ''mid2'')],
                  [(''id'', IntV 3), (''term'', StrV ''final'')]],
         next_id = 4\<rparr>),
      (''hrv'', \<lparr>tdef = hrv,
         trows = [[(''id'', IntV 1), (''parameter'', StrV ''nni_mean'')],
                  [(''id'', IntV 2), (''parameter'', StrV ''sdnn'')]],
         next_id = 3\<rparr>),
      (''inter_beat_interval'', \<lparr>tdef = inter_beat_interval, trows = [], next_id = 1\<rparr>),
      (''master_data'', \<lparr>tdef = master_data, trows = [], next_id = 1\<rparr>),
      (''window_values'', \<lparr>tdef = window_values, trows = [], next_id = 1\<rparr>)]"



definition prompt_post :: "world \<Rightarrow> (exn + loop_exit) \<Rightarrow> world \<Rightarrow> bool" where
  "prompt_post w r w' =
     (\<exists>evs inv. trace w' = trace w @ evs \<and> quiet evs \<and> list_all (\<lambda>l. \<not> accepted l) inv \<and>
        (case r of
           Inr Return_from_function \<Rightarrow>
             (\<exists>l. lower l = ''n'' \<and> answers evs = inv @ [l]) \<and> executed evs = [] \<and>
             server w' = server w
         | Inr Break \<Rightarrow>
             (\<exists>l. lower l = ''y'' \<and> answers evs = inv @ [l]) \<and>
             executed evs = [DropDatabase schema] \<and>
             run_stmt (DropDatabase schema) (server w) = Inr (server w')
         | Inl e \<Rightarrow>
             server w' = server w \<and>
             (((\<exists>l. lower l = ''y'' \<and> answers evs = inv @ [l]) \<and>
               executed evs = [DropDatabase schema]) \<or>
              (e = EOFError \<and> answers evs = inv \<and> executed evs = []))))"

section \<open>Traces of the primitive calls\<close>

declare retry_loop.simps [simp del]

lemma trace_emit [simp]: "trace (emit ev w) = trace w @ [ev]"
  by (simp add: emit_def)

lemma emit_fields [simp]:
  "connector (emit ev w) = connector w" "faults (emit ev w) = faults w"
  "stdin (emit ev w) = stdin w" "attempts (emit ev w) = attempts w"
  "consumed (emit ev w) = consumed w" "server (emit ev w) = server w"
  by (simp_all add: emit_def)

lemma closes_append [simp]: "closes (xs @ ys) = closes xs + closes ys"
  by (simp add: closes_def)

lemma opens_append [simp]: "opens (xs @ ys) = opens xs + opens ys"
  by (simp add: opens_def)

lemma commits_append [simp]: "commits (xs @ ys) = commits xs + commits ys"
  by (simp add: commits_def)

lemma count_simps [simp]:
  "closes [] = 0" "closes (ev # evs) = (if is_close ev then 1 else 0) + closes evs"
  "opens [] = 0" "opens (ev # evs) = (if is_connected ev then 1 else 0) + opens evs"
  "commits [] = 0" "commits (ev # evs) = (if is_commit ev then 1 else 0) + commits evs"
  by (simp_all add: closes_def opens_def commits_def)

lemma executed_append [simp]: "executed (xs @ ys) = executed xs @ executed ys"
  by (induction xs rule: executed.induct) simp_all

lemma answers_append [simp]: "answers (xs @ ys) = answers xs @ answers ys"
  by (induction xs rule: answers.induct) simp_all

lemma issued_append [simp]: "trace w' = trace w @ evs \<Longrightarrow> issued w w' = evs"
  by (simp add: issued_def)

lemma connecting_simps [simp]:
  "connecting []" "connecting (ev # evs) = (connect_event ev \<and> connecting evs)"
  "connecting (xs @ ys) = (connecting xs \<and> connecting ys)"
  by (simp_all add: connecting_def)

lemma connecting_projections:
  "connecting evs \<Longrightarrow>
     closes evs = 0 \<and> commits evs = 0 \<and> executed evs = [] \<and> answers evs = [] \<and> \<not> prompted evs"
proof (induction evs)
  case Nil
  then show ?case by (simp add: prompted_def)
next
  case (Cons ev evs)
  then show ?case by (cases ev) (simp_all add: prompted_def)
qed

lemma connect_cases:
  assumes "connect d w = (r, w1)"
  obtains (failed) e where "r = Inl e" "trace w1 = trace w @ [ConnectFailed d e]"
  | (connected) "r = Inr (attempts w)" "trace w1 = trace w @ [Connected (attempts w) d]"
  using assms by (auto simp: connect_def Let_def split: option.splits if_splits)

lemma connect_env:
  assumes "connect d w = (r, w1)"
  shows "connector w1 = connector w \<and> faults w1 = faults w \<and> stdin w1 = stdin w \<and>
         consumed w1 = consumed w \<and> attempts w1 = attempts w + 1 \<and>
         catalog (server w1) = catalog (server w) \<and> pending (server w1) = pending (server w)"
  using assms by (auto simp: connect_def Let_def split: option.splits if_splits)

lemma retry_loop_events:
  "retry_loop d tries w = (r, w1) \<Longrightarrow>
   \<exists>evs. trace w1 = trace w @ evs \<and> connecting evs \<and> same_env w w1 \<and>
         opens evs = (case r of Inl e \<Rightarrow> 0 | Inr c \<Rightarrow> 1)"
proof (induction d tries w arbitrary: r w1 rule: retry_loop.induct)
  case (1 d tries w)
  show ?case
  proof (cases "tries > 5")
    case True
    with "1.prems" show ?thesis by (auto simp: retry_loop.simps same_env_def)
  next
    case False
    obtain r2 w2 where c: "connect d (sleep 60 w) = (r2, w2)" by (cases "connect d (sleep 60 w)")
    note env = connect_env[OF c]
    from c show ?thesis
    proof (cases rule: connect_cases)
      case (failed e)
      show ?thesis
      proof (cases "is_mysql_error e")
        case True
        then have "retry_loop d (tries + 1) w2 = (r, w1)"
          using "1.prems" False c failed by (simp add: retry_loop.simps[of d tries w])
        from "1.IH"[OF False c[symmetric] _ True this] failed
        obtain evs where "trace w1 = trace w2 @ evs" "connecting evs" "same_env w2 w1"
          "opens evs = (case r of Inl e \<Rightarrow> 0 | Inr c \<Rightarrow> 1)" by auto
        then show ?thesis using failed env
          by (intro exI[of _ "[Sleep 60, ConnectFailed d e] @ evs"]) (simp add: sleep_def same_env_def)
      next
        case False2: False
        then have "r = Inl e" "w1 = w2"
          using "1.prems" False c failed by (simp_all add: retry_loop.simps[of d tries w])
        then show ?thesis using failed env
          by (intro exI[of _ "[Sleep 60, ConnectFailed d e]"]) (simp add: sleep_def same_env_def)
      qed
    next
      case connected
      then have "r = Inr (attempts (sleep 60 w))" "w1 = w2"
        using "1.prems" False c by (simp_all add: retry_loop.simps[of d tries w])
      then show ?thesis using connected env
        by (intro exI[of _ "[Sleep 60, Connected (attempts (sleep 60 w)) d]"]) (simp add: sleep_def same_env_def)
    qed
  qed
qed

lemma establish_events:
  assumes "establish d w = (r, w1)"
  shows "\<exists>evs. trace w1 = trace w @ evs \<and> connecting evs \<and> same_env w w1 \<and>
         opens evs = (case r of Inl e \<Rightarrow> 0 | Inr c \<Rightarrow> 1)"
proof -
  obtain r2 w2 where c: "connect d w = (r2, w2)" by (cases "connect d w")
  note env = connect_env[OF c]
  from c show ?thesis
  proof (cases rule: connect_cases)
    case (failed e)
    show ?thesis
    proof (cases "is_mysql_error e")
      case True
      then have "retry_loop d 0 w2 = (r, w1)"
        using assms c failed by (simp add: establish_def)
      from retry_loop_events[OF this]
      obtain evs where "trace w1 = trace w2 @ evs" "connecting evs" "same_env w2 w1"
        "opens evs = (case r of Inl e \<Rightarrow> 0 | Inr c \<Rightarrow> 1)" by auto
      then show ?thesis using failed env
        by (intro exI[of _ "[ConnectFailed d e] @ evs"]) (simp add: same_env_def)
    next
      case False
      then have "r = Inl e" "w1 = w2"
        using assms c failed by (simp_all add: establish_def)
      then show ?thesis using failed env
        by (intro exI[of _ "[ConnectFailed d e]"]) (simp add: same_env_def)
    qed
  next
    case connected
    then have "r = Inr (attempts w)" "w1 = w2"
      using assms c by (simp_all add: establish_def)
    then show ?thesis using connected env
      by (intro exI[of _ "[Connected (attempts w) d]"]) (simp add: same_env_def)
  qed
qed

section \<open>The retry bound\<close>

lemma connect_None_result:
  "fst (connect None w) =
     (case connector w (attempts w) of Some e \<Rightarrow> Inl e | None \<Rightarrow> Inr (attempts w))"
  by (simp add: connect_def Let_def split: option.splits)

lemma connect_oracle:
  "connector (snd (connect d w)) = connector w" "attempts (snd (connect d w)) = attempts w + 1"
  by (simp_all add: connect_def Let_def split: option.splits)

text \<open>
  With a connector that fails \<open>N\<close> times and then succeeds, the loop entered with
  \<open>tries\<close> failures behind it (after \<open>tries + 1\<close> attempts) connects exactly when
  \<open>N \<le> 6\<close>: the test \<^verbatim>\<open>tries > 5\<close> lets six retries pass.
\<close>

lemma retry_loop_bound:
  "connector w = fails_then_succeeds N \<Longrightarrow> attempts w = tries + 1 \<Longrightarrow> tries < N \<Longrightarrow>
   fst (retry_loop None tries w) =
     (if N \<le> 6 then Inr N else Inl (MySQLError ''Could not connect to database''))"
proof (induction "6 - tries" arbitrary: tries w)
  case 0
  then show ?case by (simp add: retry_loop.simps)
next
  case (Suc n)
  then have le: "\<not> tries > 5" by simp
  obtain r w1 where c: "connect None (sleep 60 w) = (r, w1)"
    by (cases "connect None (sleep 60 w)")
  have r: "r = (if tries + 1 < N then Inl (MySQLError ''2003 Cannot connect to MySQL server'')
                else Inr (tries + 1))"
    using connect_None_result[of "sleep 60 w"] c Suc.prems
    by (simp add: fails_then_succeeds_def sleep_def)
  have "w1 = snd (connect None (sleep 60 w))" using c by simp
  then have w1: "connector w1 = fails_then_succeeds N" "attempts w1 = (tries + 1) + 1"
    using Suc.prems by (simp_all add: connect_oracle sleep_def)
  show ?case
  proof (cases "tries + 1 < N")
    case True
    have "n = 6 - (tries + 1)" using Suc.hyps(2) by simp
    from Suc.hyps(1)[OF this w1 True] show ?thesis
      using le c r True by (subst retry_loop.simps) simp
  next
    case False
    then have "N = tries + 1" using Suc.prems by simp
    then show ?thesis using le c r False by (subst retry_loop.simps) simp
  qed
qed

lemma establish_bound:
  "fst (establish None (start (fails_then_succeeds N) lines cat)) =
     (if N \<le> 6 then Inr N else Inl (MySQLError ''Could not connect to database''))"
proof (cases "N = 0")
  case True
  then show ?thesis
    by (simp add: establish_def connect_def start_def fails_then_succeeds_def Let_def)
next
  case False
  let ?w = "start (fails_then_succeeds N) lines cat"
  obtain r w1 where c: "connect None ?w = (r, w1)" by (cases "connect None ?w")
  have r: "r = Inl (MySQLError ''2003 Cannot connect to MySQL server'')"
    using connect_None_result[of ?w] c False by (simp add: start_def fails_then_succeeds_def)
  have "w1 = snd (connect None ?w)" using c by simp
  then have w1: "connector w1 = fails_then_succeeds N" "attempts w1 = 0 + 1"
    by (simp_all add: connect_oracle start_def)
  show ?thesis
    using retry_loop_bound[OF w1] False c r by (simp add: establish_def)
qed

text \<open>
  C1 (the retry bound). The specification and the docstring of
  \<^verbatim>\<open>connect_to_localhost\<close> (\<^verbatim>\<open>If unable to establish connection after 5
  retries\<close>) give up after five retries, so a connector that fails six times and then
  succeeds should end in the error. In the code the body of the \<^verbatim>\<open>with\<close> block is
  entered with the connection of the seventh attempt, after six waits of 60 seconds.
\<close>

theorem seventh_attempt_connects:
  "connect_to_localhost None (\<lambda>db w. Some (Return db, w))
     (start (fails_then_succeeds 6) (\<lambda>k. None) Map.empty) =
   Some (Return 6,
     \<lparr>connector = fails_then_succeeds 6, faults = (\<lambda>n. None), stdin = (\<lambda>k. None),
      attempts = 7, consumed = 0,
      server = \<lparr>catalog = Map.empty, current = None, pending = []\<rparr>,
      trace = [ConnectFailed None (MySQLError ''2003 Cannot connect to MySQL server''), Sleep 60,
               ConnectFailed None (MySQLError ''2003 Cannot connect to MySQL server''), Sleep 60,
               ConnectFailed None (MySQLError ''2003 Cannot connect to MySQL server''), Sleep 60,
               ConnectFailed None (MySQLError ''2003 Cannot connect to MySQL server''), Sleep 60,
               ConnectFailed None (MySQLError ''2003 Cannot connect to MySQL server''), Sleep 60,
               ConnectFailed None (MySQLError ''2003 Cannot connect to MySQL server''), Sleep 60,
               Connected 6 None, Close 6]\<rparr>)"
  by (simp add: connect_to_localhost_def establish_def retry_loop.simps connect_def sleep_def
        emit_def start_def fails_then_succeeds_def finally_close_def Let_def)

section \<open>Scoped release\<close>

text \<open>
  C2 (scoped release). Whatever way the body of a
  \<^verbatim>\<open>with connect_to_localhost(database)\<close> block is left (to its end, by a return,
  by an exception), and when the block is left because no connection could be
  established, the manager calls \<^verbatim>\<open>close\<close> once if a connection was opened and not
  at all otherwise. The body is any body that does not open or close connections
  itself.
\<close>

theorem scoped_release:
  assumes run: "connect_to_localhost database body w = Some (x, w')"
    and body: "\<And>db w1 y w2. body db w1 = Some (y, w2) \<Longrightarrow>
                 closes (trace w2) = closes (trace w1) \<and> opens (trace w2) = opens (trace w1)"
  shows "closes (trace w') = closes (trace w) + (if opens (trace w) < opens (trace w') then 1 else 0)"
proof -
  obtain r w1 where e: "establish database w = (r, w1)" by (cases "establish database w")
  from establish_events[OF e] obtain evs where
    evs: "trace w1 = trace w @ evs" "connecting evs" "opens evs = (case r of Inl e \<Rightarrow> 0 | Inr c \<Rightarrow> 1)"
    by auto
  show ?thesis
  proof (cases r)
    case (Inl err)
    then have "w' = w1" using run e by (simp add: connect_to_localhost_def finally_close_def)
    then show ?thesis using evs Inl connecting_projections[OF evs(2)] by simp
  next
    case (Inr db)
    then obtain w2 where b: "body db w1 = Some (x, w2)" and w': "w' = emit (Close db) w2"
      using run e by (auto simp: connect_to_localhost_def finally_close_def split: option.splits)
    from body[OF b] show ?thesis using evs Inr w' connecting_projections[OF evs(2)] by simp
  qed
qed


theorem scoped_release_witness:
  "connect_to_localhost None (\<lambda>db w. Some (Raise (OtherError ''failed''), emit (Cursor db) w))
     (start (fails_then_succeeds 1) (\<lambda>k. None) Map.empty) =
   Some (Raise (OtherError ''failed'') :: unit exit,
     \<lparr>connector = fails_then_succeeds 1, faults = (\<lambda>n. None), stdin = (\<lambda>k. None),
      attempts = 2, consumed = 0,
      server = \<lparr>catalog = Map.empty, current = None, pending = []\<rparr>,
      trace = [ConnectFailed None (MySQLError ''2003 Cannot connect to MySQL server''),
               Sleep 60, Connected 1 None, Cursor 1, Close 1]\<rparr>) \<and>
   closes [ConnectFailed None (MySQLError ''2003 Cannot connect to MySQL server''),
               Sleep 60, Connected 1 None, Cursor 1, Close 1] = 1"
proof -
  let ?body = "\<lambda>db w. Some (Raise (OtherError ''failed'') :: unit exit, emit (Cursor db) w)"
  let ?w' = "\<lparr>connector = fails_then_succeeds 1, faults = (\<lambda>n. None), stdin = (\<lambda>k. None),
      attempts = 2, consumed = 0,
      server = \<lparr>catalog = Map.empty, current = None, pending = []\<rparr>,
      trace = [ConnectFailed None (MySQLError ''2003 Cannot connect to MySQL server''),
               Sleep 60, Connected 1 None, Cursor 1, Close 1]\<rparr>"
  have run: "connect_to_localhost None ?body (start (fails_then_succeeds 1) (\<lambda>k. None) Map.empty) =
      Some (Raise (OtherError ''failed''), ?w')"
    by (simp add: connect_to_localhost_def establish_def retry_loop.simps connect_def sleep_def
        emit_def start_def fails_then_succeeds_def finally_close_def Let_def)
  have body: "\<And>db w1 y w2. ?body db w1 = Some (y, w2) \<Longrightarrow>
      closes (trace w2) = closes (trace w1) \<and> opens (trace w2) = opens (trace w1)"
    by auto
  from scoped_release[OF run body] run show ?thesis
    by (simp add: start_def)
qed

section \<open>The shape of a run of \<^verbatim>\<open>create_schema\<close>\<close>

lemma quiet_simps [simp]:
  "quiet []" "quiet (Cursor c # evs) = quiet evs" "quiet (Execute s # evs) = quiet evs"
  "quiet (Fetchone # evs) = quiet evs" "quiet (Input p a # evs) = quiet evs"
  "quiet (Print m # evs) = quiet evs" "quiet (xs @ ys) = (quiet xs \<and> quiet ys)"
  by (auto simp: quiet_def)

lemma cursor_result:
  assumes "cursor db w = (r, w1)"
  shows "trace w1 = trace w @ [Cursor db] \<and> server w1 = server w \<and> (r = Inr db \<or> (\<exists>e. r = Inl e))"
  using assms by (auto simp: cursor_def split: option.splits)

lemma execute_result:
  assumes "execute s w = (r, w1)"
  shows "trace w1 = trace w @ [Execute s] \<and>
         ((r = Inr () \<and> run_stmt s (server w) = Inr (server w1)) \<or> (\<exists>e. r = Inl e \<and> server w1 = server w))"
  using assms by (auto simp: execute_def split: option.splits sum.splits)

lemma fetchone_result:
  assumes "fetchone w = (r, w1)"
  shows "trace w1 = trace w @ [Fetchone] \<and> catalog (server w1) = catalog (server w) \<and>
         current (server w1) = current (server w) \<and>
         ((\<exists>e. r = Inl e) \<or> r = Inr (case pending (server w) of [] \<Rightarrow> None | x # xs \<Rightarrow> Some x))"
  using assms by (auto simp: fetchone_def split: option.splits list.splits)

lemma commit_result:
  assumes "commit db w = (r, w1)"
  shows "trace w1 = trace w @ [Commit db] \<and> server w1 = server w \<and> (r = Inr () \<or> (\<exists>e. r = Inl e))"
  using assms by (auto simp: commit_def split: option.splits)

lemma input_result:
  assumes "input p w = (r, w1)"
  shows "server w1 = server w \<and>
         ((r = Inl EOFError \<and> trace w1 = trace w @ [Input p None]) \<or>
          (\<exists>line. r = Inr line \<and> trace w1 = trace w @ [Input p (Some line)]))"
  using assms by (auto simp: input_def split: option.splits)

lemma print_result [simp]: "trace (print m w) = trace w @ [Print m]" "server (print m w) = server w"
  by (simp_all add: print_def)

declare run_stmt.simps [simp del]


lemma prompt_loop_post_aux:
  assumes "prompt_loop w0 = Some y0"
  shows "prompt_post w0 (fst y0) (snd y0)"
proof (rule prompt_loop.raw_induct[where P = "\<lambda>w y. prompt_post w (fst y) (snd y)", OF _ assms],
    goal_cases)
  case (1 loop w y)
  obtain r w' where y: "y = (r, w')" by (cases y)
  note 1 = 1[unfolded y fst_conv snd_conv]
  show ?case unfolding y fst_conv snd_conv
  proof -
  let ?p = "''Do you want to delete it? (y/n): ''"
  obtain ri w1 where i: "input ?p w = (ri, w1)" by (cases "input ?p w")
  from input_result[OF i] have srv1: "server w1 = server w" by simp
  from input_result[OF i] consider
    (eof) "ri = Inl EOFError" "trace w1 = trace w @ [Input ?p None]"
    | (line) line where "ri = Inr line" "trace w1 = trace w @ [Input ?p (Some line)]" by auto
  then show "prompt_post w r w'"
  proof cases
    case eof
    then have "r = Inl EOFError" "w' = w1" using 1(2) i by simp_all
    then show ?thesis using eof srv1
      by (auto simp: prompt_post_def intro!: exI[of _ "[Input ?p None]"] exI[of _ "[]"])
  next
    case line
    show ?thesis
    proof (cases "lower line = ''y''")
      case True
      obtain re w2 where e: "execute (DropDatabase schema) w1 = (re, w2)"
        by (cases "execute (DropDatabase schema) w1")
      from execute_result[OF e] consider
        (ok) "re = Inr ()" "trace w2 = trace w1 @ [Execute (DropDatabase schema)]"
             "run_stmt (DropDatabase schema) (server w1) = Inr (server w2)"
        | (failed) err where "re = Inl err" "trace w2 = trace w1 @ [Execute (DropDatabase schema)]"
             "server w2 = server w1" by auto
      then show ?thesis
      proof cases
        case ok
        then have "r = Inr Break" "w' = print (''Schema '' @ schema @ '' deleted successfully.'') w2"
          using 1(2) i line True e by simp_all
        then show ?thesis using ok line True srv1
          by (auto simp: prompt_post_def
              intro!: exI[of _ "[Input ?p (Some line), Execute (DropDatabase schema),
                 Print (''Schema '' @ schema @ '' deleted successfully.'')]"] exI[of _ "[]"])
      next
        case failed
        then have "r = Inl err" "w' = w2" using 1(2) i line True e by simp_all
        then show ?thesis using failed line True srv1
          by (auto simp: prompt_post_def
              intro!: exI[of _ "[Input ?p (Some line), Execute (DropDatabase schema)]"] exI[of _ "[]"])
      qed
    next
      case False
      show ?thesis
      proof (cases "lower line = ''n''")
        case True
        then have "r = Inr Return_from_function" "w' = w1" using 1(2) i line False by simp_all
        then show ?thesis using line True srv1
          by (auto simp: prompt_post_def intro!: exI[of _ "[Input ?p (Some line)]"] exI[of _ "[]"])
      next
        case False2: False
        then have "loop (print ''invalid input..'' w1) = Some (r, w')"
          using 1(2) i line False by simp
        from 1(1)[OF this, unfolded fst_conv snd_conv] obtain evs inv where
          a: "trace w' = trace (print ''invalid input..'' w1) @ evs" "quiet evs"
             "list_all (\<lambda>l. \<not> accepted l) inv" and
          b: "(case r of
           Inr Return_from_function \<Rightarrow>
             (\<exists>l. lower l = ''n'' \<and> answers evs = inv @ [l]) \<and> executed evs = [] \<and> server w' = server (print ''invalid input..'' w1)
         | Inr Break \<Rightarrow>
             (\<exists>l. lower l = ''y'' \<and> answers evs = inv @ [l]) \<and> executed evs = [DropDatabase schema] \<and>
             run_stmt (DropDatabase schema) (server (print ''invalid input..'' w1)) = Inr (server w')
         | Inl e \<Rightarrow>
             server w' = server (print ''invalid input..'' w1) \<and>
             (((\<exists>l. lower l = ''y'' \<and> answers evs = inv @ [l]) \<and> executed evs = [DropDatabase schema]) \<or>
              (e = EOFError \<and> answers evs = inv \<and> executed evs = [])))"
          unfolding prompt_post_def by blast
        have inv: "list_all (\<lambda>l. \<not> accepted l) (line # inv)"
          using a(3) False False2 by (simp add: accepted_def)
        show ?thesis
          unfolding prompt_post_def
          apply (rule exI[of _ "[Input ?p (Some line), Print ''invalid input..''] @ evs"])
          apply (rule exI[of _ "line # inv"])
          using a b inv line srv1
          by (auto split: sum.splits loop_exit.splits)
      qed
    qed
  qed
  qed
qed

lemma prompt_loop_post: "prompt_loop w = Some (r, w') \<Longrightarrow> prompt_post w r w'"
  using prompt_loop_post_aux[of w "(r, w')"] by simp


lemma run_all_execute:
  "run_all (map execute stmts @ [commit db]) w = (r, w') \<Longrightarrow>
     (r = Inr () \<and> trace w' = trace w @ map Execute stmts @ [Commit db] \<and>
      run_stmts stmts (server w) = Inr (server w')) \<or>
     (\<exists>e n. r = Inl e \<and> n \<le> length stmts \<and>
        trace w' = trace w @ take (Suc n) (map Execute stmts @ [Commit db]))"
proof (induction stmts arbitrary: w)
  case Nil
  obtain rc w1 where c: "commit db w = (rc, w1)" by (cases "commit db w")
  from commit_result[OF c] Nil c show ?case by (auto split: sum.splits)
next
  case (Cons s stmts)
  obtain re w1 where e: "execute s w = (re, w1)" by (cases "execute s w")
  from execute_result[OF e] consider
    (ok) "re = Inr ()" "trace w1 = trace w @ [Execute s]" "run_stmt s (server w) = Inr (server w1)"
    | (failed) err where "re = Inl err" "trace w1 = trace w @ [Execute s]" by auto
  then show ?case
  proof cases
    case ok
    then have "run_all (map execute stmts @ [commit db]) w1 = (r, w')"
      using Cons.prems e by simp
    from Cons.IH[OF this] show ?thesis
    proof (elim disjE exE conjE)
      assume "r = Inr ()" "trace w' = trace w1 @ map Execute stmts @ [Commit db]"
        "run_stmts stmts (server w1) = Inr (server w')"
      then show ?thesis using ok by simp
    next
      fix e n
      assume "r = Inl e" "n \<le> length stmts"
        "trace w' = trace w1 @ take (Suc n) (map Execute stmts @ [Commit db])"
      then show ?thesis using ok
        by (intro disjI2 exI[of _ e] exI[of _ "Suc n"]) simp
    qed
  next
    case failed
    then have "r = Inl err" "w' = w1" using Cons.prems e by simp_all
    then show ?thesis using failed
      by (intro disjI2 exI[of _ err] exI[of _ 0]) simp
  qed
qed

lemma provision_steps:
  "provision schema_name db w =
     (case run_all (map execute (provisioning_statements schema_name) @ [commit db]) w of
        (Inl e, w1) \<Rightarrow> (Raise e, w1)
      | (Inr u, w1) \<Rightarrow> (Normal, w1))"
  by (simp add: provision_def provisioning_statements_def)

lemma provision_result:
  assumes "provision schema_name db w = (x, w')"
  shows "(x = Normal \<and>
          trace w' = trace w @ map Execute (provisioning_statements schema_name) @ [Commit db] \<and>
          run_stmts (provisioning_statements schema_name) (server w) = Inr (server w')) \<or>
         (\<exists>e n. x = Raise e \<and> n \<le> length (provisioning_statements schema_name) \<and>
            trace w' = trace w @
              take (Suc n) (map Execute (provisioning_statements schema_name) @ [Commit db]))"
proof -
  obtain r w1 where r: "run_all (map execute (provisioning_statements schema_name) @ [commit db]) w = (r, w1)"
    by (cases "run_all (map execute (provisioning_statements schema_name) @ [commit db]) w")
  from run_all_execute[OF r] assms r show ?thesis
    by (auto simp: provision_steps)
qed

lemma run_stmt_select:
  "run_stmt (SelectSchemaName s) srv = Inr srv' \<Longrightarrow>
     catalog srv' = catalog srv \<and> current srv' = current srv \<and>
     pending srv' = (case catalog srv s of None \<Rightarrow> [] | Some db \<Rightarrow> [[StrV s]])"
  by (auto simp: run_stmt.simps split: option.splits)

lemma run_stmt_drop:
  "run_stmt (DropDatabase s) srv = Inr srv' \<Longrightarrow>
     catalog srv s \<noteq> None \<and> catalog srv' = (catalog srv)(s := None)"
  by (auto simp: run_stmt.simps split: option.splits)

lemma create_schema_body_cases:
  assumes "create_schema_body schema_name db w = Some (x, w')"
  obtains
    (early) e evs where "x = Raise e" "trace w' = trace w @ evs" "quiet evs"
      "executed evs = [] \<or> executed evs = [SelectSchemaName schema]" "answers evs = []"
      "\<not> prompted evs" "catalog (server w') = catalog (server w)"
  | (retained) evs inv l where "x = Return ()" "trace w' = trace w @ evs" "quiet evs"
      "executed evs = [SelectSchemaName schema]" "answers evs = inv @ [l]"
      "list_all (\<lambda>l. \<not> accepted l) inv" "lower l = ''n''" "prompted evs"
      "catalog (server w') = catalog (server w)" "catalog (server w) schema \<noteq> None"
  | (eof) evs inv where "x = Raise EOFError" "trace w' = trace w @ evs" "quiet evs"
      "executed evs = [SelectSchemaName schema]" "answers evs = inv"
      "list_all (\<lambda>l. \<not> accepted l) inv" "prompted evs"
      "catalog (server w') = catalog (server w)" "catalog (server w) schema \<noteq> None"
  | (drop_failed) e evs inv l where "x = Raise e" "trace w' = trace w @ evs" "quiet evs"
      "executed evs = [SelectSchemaName schema, DropDatabase schema]" "answers evs = inv @ [l]"
      "list_all (\<lambda>l. \<not> accepted l) inv" "lower l = ''y''" "prompted evs"
      "catalog (server w') = catalog (server w)" "catalog (server w) schema \<noteq> None"
  | (provisioned) mid srv where "x = Normal"
      "trace w' = trace w @ mid @ map Execute (provisioning_statements schema_name) @ [Commit db]"
      "quiet mid" "decided mid (catalog (server w)) srv"
      "run_stmts (provisioning_statements schema_name) srv = Inr (server w')"
  | (provision_failed) e mid n srv where "x = Raise e"
      "trace w' = trace w @ mid @
         take (Suc n) (map Execute (provisioning_statements schema_name) @ [Commit db])"
      "n \<le> length (provisioning_statements schema_name)"
      "quiet mid" "decided mid (catalog (server w)) srv"
proof -
  obtain rc w1 where c: "cursor db w = (rc, w1)" by (cases "cursor db w")
  note c1 = cursor_result[OF c]
  show thesis
  proof (cases rc)
    case (Inl e)
    then have "x = Raise e" "w' = w1" using assms c by (simp_all add: create_schema_body_def)
    then show thesis using c1 by (intro early[of e "[Cursor db]"]) (simp_all add: prompted_def)
  next
    case (Inr cur)
    obtain re w2 where e: "execute (SelectSchemaName schema) w1 = (re, w2)"
      by (cases "execute (SelectSchemaName schema) w1")
    note e1 = execute_result[OF e]
    show thesis
    proof (cases re)
      case (Inl err)
      then have "x = Raise err" "w' = w2" using assms c Inr e by (simp_all add: create_schema_body_def)
      then show thesis using c1 e1 Inl
        by (intro early[of err "[Cursor db, Execute (SelectSchemaName schema)]"])
           (simp_all add: prompted_def)
    next
      case Inr2: (Inr u)
      then have sel: "run_stmt (SelectSchemaName schema) (server w) = Inr (server w2)"
        using e1 c1 by auto
      note s2 = run_stmt_select[OF sel]
      obtain rf w3 where f: "fetchone w2 = (rf, w3)" by (cases "fetchone w2")
      note f1 = fetchone_result[OF f]
      let ?pre = "[Cursor db, Execute (SelectSchemaName schema), Fetchone]"
      have t3: "trace w3 = trace w @ ?pre" using c1 e1 f1 by simp
      have cat3: "catalog (server w3) = catalog (server w)" using f1 s2 by simp
      show thesis
      proof (cases rf)
        case (Inl err)
        then have "x = Raise err" "w' = w3"
          using assms c Inr e Inr2 f by (simp_all add: create_schema_body_def)
        then show thesis using t3 cat3
          by (intro early[of err ?pre]) (simp_all add: prompted_def)
      next
        case Inr3: (Inr row)
        then have row: "row = (case pending (server w2) of [] \<Rightarrow> None | x # xs \<Rightarrow> Some x)"
          using f1 by auto
        then have truthy: "truthy row \<longleftrightarrow> catalog (server w) schema \<noteq> None"
          using s2 by (auto simp: truthy_def split: option.splits)
        let ?msg = "''Schema '' @ schema @ '' already exists.''"
        show thesis
        proof (cases "truthy row")
          case False
          then have p: "provision schema_name db w3 = (x, w')"
            using assms c Inr e Inr2 f Inr3 by (simp add: create_schema_body_def)
          have d: "decided ?pre (catalog (server w)) (server w3)"
            using False truthy cat3 by (simp add: decided_def prompted_def)
          from provision_result[OF p] show thesis
          proof (elim disjE exE conjE)
            assume "x = Normal"
              "trace w' = trace w3 @ map Execute (provisioning_statements schema_name) @ [Commit db]"
              "run_stmts (provisioning_statements schema_name) (server w3) = Inr (server w')"
            then show thesis using t3 d by (intro provisioned[of ?pre "server w3"]) simp_all
          next
            fix err n
            assume "x = Raise err" "n \<le> length (provisioning_statements schema_name)"
              "trace w' = trace w3 @
                 take (Suc n) (map Execute (provisioning_statements schema_name) @ [Commit db])"
            then show thesis using t3 d
              by (intro provision_failed[of err ?pre n "server w3"]) simp_all
          qed
        next
          case True
          let ?w4 = "print ?msg w3"
          have cat: "catalog (server w) schema \<noteq> None" using True truthy by simp
          show thesis
          proof (cases "prompt_loop ?w4")
            case None
            then show thesis
              using assms c Inr e Inr2 f Inr3 True by (simp add: create_schema_body_def)
          next
            case (Some y)
            obtain rp w5 where y: "y = (rp, w5)" by (cases y)
            from prompt_loop_post[OF Some[unfolded y]] obtain evs inv where
              pe: "trace w5 = trace ?w4 @ evs" "quiet evs" "list_all (\<lambda>l. \<not> accepted l) inv" and
              pr: "(case rp of
                 Inr Return_from_function \<Rightarrow>
                   (\<exists>l. lower l = ''n'' \<and> answers evs = inv @ [l]) \<and> executed evs = [] \<and>
                   server w5 = server ?w4
               | Inr Break \<Rightarrow>
                   (\<exists>l. lower l = ''y'' \<and> answers evs = inv @ [l]) \<and>
                   executed evs = [DropDatabase schema] \<and>
                   run_stmt (DropDatabase schema) (server ?w4) = Inr (server w5)
               | Inl e \<Rightarrow>
                   server w5 = server ?w4 \<and>
                   (((\<exists>l. lower l = ''y'' \<and> answers evs = inv @ [l]) \<and>
                     executed evs = [DropDatabase schema]) \<or>
                    (e = EOFError \<and> answers evs = inv \<and> executed evs = [])))"
              unfolding prompt_post_def by blast
            let ?mid = "?pre @ [Print ?msg] @ evs"
            have t5: "trace w5 = trace w @ ?mid" using pe t3 by simp
            have q: "quiet ?mid" using pe by simp
            have pm: "prompted ?mid" by (simp add: prompted_def)
            show thesis
            proof (cases rp)
              case (Inl err)
              then have x: "x = Raise err" "w' = w5"
                using assms c Inr e Inr2 f Inr3 True Some y by (simp_all add: create_schema_body_def)
              from pr Inl have srv: "catalog (server w5) = catalog (server w)" using cat3 by simp
              from pr Inl consider
                (a) l where "lower l = ''y''" "answers evs = inv @ [l]" "executed evs = [DropDatabase schema]"
                | (b) "err = EOFError" "answers evs = inv" "executed evs = []" by auto
              then show thesis
              proof cases
                case a
                then show ?thesis using x t5 q pm srv cat pe
                  by (intro drop_failed[of err ?mid inv l]) simp_all
              next
                case b
                then show ?thesis using x t5 q pm srv cat pe
                  by (intro eof[of ?mid inv]) simp_all
              qed
            next
              case Inr4: (Inr ex)
              show thesis
              proof (cases ex)
                case Return_from_function
                then have x: "x = Return ()" "w' = w5"
                  using assms c Inr e Inr2 f Inr3 True Some y Inr4
                  by (simp_all add: create_schema_body_def)
                from pr Inr4 Return_from_function obtain l where
                  "lower l = ''n''" "answers evs = inv @ [l]" "executed evs = []"
                  "server w5 = server ?w4" by auto
                then show ?thesis using x t5 q pm cat cat3 pe
                  by (intro retained[of ?mid inv l]) simp_all
              next
                case Break
                then have p: "provision schema_name db w5 = (x, w')"
                  using assms c Inr e Inr2 f Inr3 True Some y Inr4
                  by (simp add: create_schema_body_def)
                from pr Inr4 Break obtain l where
                  l: "lower l = ''y''" "answers evs = inv @ [l]" "executed evs = [DropDatabase schema]"
                  "run_stmt (DropDatabase schema) (server ?w4) = Inr (server w5)" by auto
                from run_stmt_drop[OF l(4)] have "catalog (server w5) = (catalog (server w))(schema := None)"
                  using cat3 by simp
                then have d: "decided ?mid (catalog (server w)) (server w5)"
                  using l pe cat pm unfolding decided_def
                  by (intro disjI2 exI[of _ inv] exI[of _ l]) simp
                from provision_result[OF p] show thesis
                proof (elim disjE exE conjE)
                  assume "x = Normal"
                    "trace w' = trace w5 @ map Execute (provisioning_statements schema_name) @ [Commit db]"
                    "run_stmts (provisioning_statements schema_name) (server w5) = Inr (server w')"
                  then show thesis using t5 d q by (intro provisioned[of ?mid "server w5"]) simp_all
                next
                  fix err n
                  assume "x = Raise err" "n \<le> length (provisioning_statements schema_name)"
                    "trace w' = trace w5 @
                       take (Suc n) (map Execute (provisioning_statements schema_name) @ [Commit db])"
                  then show thesis using t5 d q
                    by (intro provision_failed[of err ?mid n "server w5"]) simp_all
                qed
              qed
            qed
          qed
        qed
      qed
    qed
  qed
qed


lemma create_schema_cases:
  assumes "create_schema schema_name w = Some (r, w')"
  obtains
    (unconnected) e where "r = Inl e" "connecting (issued w w')"
      "catalog (server w') = catalog (server w)"
  | (early) e db pre evs where "r = Inl e" "issued w w' = pre @ evs @ [Close db]"
      "connecting pre" "quiet evs"
      "executed evs = [] \<or> executed evs = [SelectSchemaName schema]" "answers evs = []"
      "\<not> prompted evs" "catalog (server w') = catalog (server w)"
  | (retained) db pre evs inv l where "r = Inr ()" "issued w w' = pre @ evs @ [Close db]"
      "connecting pre" "quiet evs"
      "executed evs = [SelectSchemaName schema]" "answers evs = inv @ [l]"
      "list_all (\<lambda>l. \<not> accepted l) inv" "lower l = ''n''" "prompted evs"
      "catalog (server w') = catalog (server w)" "catalog (server w) schema \<noteq> None"
  | (eof) db pre evs inv where "r = Inl EOFError" "issued w w' = pre @ evs @ [Close db]"
      "connecting pre" "quiet evs"
      "executed evs = [SelectSchemaName schema]" "answers evs = inv"
      "list_all (\<lambda>l. \<not> accepted l) inv" "prompted evs"
      "catalog (server w') = catalog (server w)" "catalog (server w) schema \<noteq> None"
  | (drop_failed) e db pre evs inv l where "r = Inl e" "issued w w' = pre @ evs @ [Close db]"
      "connecting pre" "quiet evs"
      "executed evs = [SelectSchemaName schema, DropDatabase schema]" "answers evs = inv @ [l]"
      "list_all (\<lambda>l. \<not> accepted l) inv" "lower l = ''y''" "prompted evs"
      "catalog (server w') = catalog (server w)" "catalog (server w) schema \<noteq> None"
  | (provisioned) db pre mid srv where "r = Inr ()"
      "issued w w' = pre @ mid @ map Execute (provisioning_statements schema_name) @
         [Commit db, Close db]"
      "connecting pre" "quiet mid" "decided mid (catalog (server w)) srv"
      "run_stmts (provisioning_statements schema_name) srv = Inr (server w')"
  | (provision_failed) e db pre mid n srv where "r = Inl e"
      "issued w w' = pre @ mid @
         take (Suc n) (map Execute (provisioning_statements schema_name) @ [Commit db]) @ [Close db]"
      "n \<le> length (provisioning_statements schema_name)"
      "connecting pre" "quiet mid" "decided mid (catalog (server w)) srv"
proof -
  obtain re w1 where e: "establish None w = (re, w1)" by (cases "establish None w")
  from establish_events[OF e] obtain pre where
    pre: "trace w1 = trace w @ pre" "connecting pre" and cat1: "catalog (server w1) = catalog (server w)"
    by (auto simp: same_env_def)
  show thesis
  proof (cases re)
    case (Inl err)
    then have "r = Inl err" "w' = w1"
      using assms e by (simp_all add: create_schema_def connect_to_localhost_def finally_close_def)
    then show thesis using pre cat1 by (intro unconnected[of err]) simp_all
  next
    case (Inr db)
    then obtain x w2 where b: "create_schema_body schema_name db w1 = Some (x, w2)"
      and w': "w' = emit (Close db) w2"
      and r: "r = (case x of Raise e \<Rightarrow> Inl e | Return u \<Rightarrow> Inr () | Normal \<Rightarrow> Inr ())"
      using assms e
      by (auto simp: create_schema_def connect_to_localhost_def finally_close_def
          split: option.splits exit.splits)
    from b show thesis
    proof (cases rule: create_schema_body_cases)
      case (early e evs)
      then show ?thesis using pre cat1 w' r
        by (intro that(2)[of e pre evs db]) simp_all
    next
      case (retained evs inv l)
      then show ?thesis using pre cat1 w' r
        by (intro that(3)[of pre evs db inv l]) simp_all
    next
      case (eof evs inv)
      then show ?thesis using pre cat1 w' r
        by (intro that(4)[of pre evs db inv]) simp_all
    next
      case (drop_failed e evs inv l)
      then show ?thesis using pre cat1 w' r
        by (intro that(5)[of e pre evs db inv l]) simp_all
    next
      case (provisioned mid srv)
      then show ?thesis using pre cat1 w' r
        by (intro that(6)[of pre mid db srv]) simp_all
    next
      case (provision_failed e mid n srv)
      then show ?thesis using pre cat1 w' r
        by (intro that(7)[of e pre mid n db srv]) simp_all
    qed
  qed
qed


lemma executed_map_Execute [simp]: "executed (map Execute ss) = ss"
  by (induction ss) simp_all

lemma answers_map_Execute [simp]: "answers (map Execute ss) = []"
  by (induction ss) simp_all

lemma quiet_map_Execute [simp]: "quiet (map Execute ss)"
  by (induction ss) simp_all

lemma take_map_Execute [simp]:
  "executed (take n (map Execute ss)) = take n ss" "answers (take n (map Execute ss)) = []"
  "quiet (take n (map Execute ss))"
  by (simp_all add: take_map)

lemma take_Commit [simp]:
  "executed (take n [Commit db]) = []" "answers (take n [Commit db]) = []"
  by (cases n; simp)+

lemma not_accepted_no_answer:
  "list_all (\<lambda>l. \<not> accepted l) ls \<Longrightarrow> \<not> list_ex (\<lambda>l. lower l = a) ls" if "a = ''y'' \<or> a = ''n''"
  using that by (induction ls) (auto simp: accepted_def)


lemma decided_yes:
  assumes "decided mid cat srv" "list_ex (\<lambda>l. lower l = ''y'') (answers mid)"
  shows "executed mid = [SelectSchemaName schema, DropDatabase schema]"
  using assms by (auto simp: decided_def)

lemma decided_executed:
  assumes "decided mid cat srv"
  shows "executed mid = [SelectSchemaName schema] \<or>
         executed mid = [SelectSchemaName schema, DropDatabase schema]"
  using assms by (auto simp: decided_def)


lemma lower_char_y: "lower_char c = CHR ''y'' \<longleftrightarrow> c = CHR ''y'' \<or> c = CHR ''Y''"
  by (simp add: lower_char_def)
lemma lower_y: "lower l = ''y'' \<longleftrightarrow> l = ''y'' \<or> l = ''Y''"
  by (cases l) (auto simp: lower_def lower_char_y)

lemmas table_defs = dataset_def exam_def hrv_def inter_beat_interval_def master_data_def
  window_values_def id_column_def plain_def foreign_key_to_def



section \<open>Four runs\<close>

text \<open>
  Evaluated once, for the witnesses below: a run on an empty server; a run where the
  schema of the constant exists and the operator answers \<^verbatim>\<open>maybe\<close>, then \<^verbatim>\<open>N\<close>;
  one where the operator answers \<^verbatim>\<open>Y\<close>; and one where the schema asked for exists
  and the schema of the constant does not.
\<close>

lemmas run_defs = create_schema_def connect_to_localhost_def establish_def connect_def
  create_schema_body_def cursor_def execute_def fetchone_def commit_def input_def print_def
  emit_def truthy_def finally_close_def start_def operator_types_def fails_then_succeeds_def
  provision_def Let_def

lemmas server_defs = run_stmt.simps in_current_def create_table_def fk_target_exists_def
  insert_into_def append_row_def new_row_def cell_def table_defs

lemma fresh_run:
  "create_schema ''s'' (start (fails_then_succeeds 0) (operator_types []) Map.empty) =
   Some (Inr (), (start (fails_then_succeeds 0) (operator_types []) Map.empty)
      \<lparr>attempts := 1,
       server := \<lparr>catalog = [''s'' \<mapsto> provisioned_database], current = Some ''s'', pending = []\<rparr>,
       trace := [Connected 0 None, Cursor 0, Execute (SelectSchemaName schema), Fetchone] @
         map Execute (provisioning_statements ''s'') @ [Commit 0, Close 0]\<rparr>)"
  by (simp add: run_defs provisioning_statements_def provisioned_database_def server_defs)


lemma replace_run:
  "create_schema ''s''
     (start (fails_then_succeeds 0) (operator_types [''Y'']) [schema \<mapsto> provisioned_database]) =
   Some (Inr (),
     (start (fails_then_succeeds 0) (operator_types [''Y'']) [schema \<mapsto> provisioned_database])
      \<lparr>attempts := 1, consumed := 1,
       server := \<lparr>catalog = [''s'' \<mapsto> provisioned_database], current = Some ''s'', pending = []\<rparr>,
       trace := [Connected 0 None, Cursor 0, Execute (SelectSchemaName schema), Fetchone,
         Print (''Schema '' @ schema @ '' already exists.''),
         Input ''Do you want to delete it? (y/n): '' (Some ''Y''),
         Execute (DropDatabase schema),
         Print (''Schema '' @ schema @ '' deleted successfully.'')] @
         map Execute (provisioning_statements ''s'') @ [Commit 0, Close 0]\<rparr>)"
  by (simp add: run_defs prompt_loop.simps lower_def lower_char_def schema_def
      provisioning_statements_def provisioned_database_def server_defs)

lemma other_run:
  "create_schema ''other''
     (start (fails_then_succeeds 0) (operator_types []) [''other'' \<mapsto> []]) =
   Some (Inl (MySQLError ''1007 Cannot create database; database exists''),
     (start (fails_then_succeeds 0) (operator_types []) [''other'' \<mapsto> []])
      \<lparr>attempts := 1,
       server := \<lparr>catalog = [''other'' \<mapsto> []], current = None, pending = []\<rparr>,
       trace := [Connected 0 None, Cursor 0, Execute (SelectSchemaName schema), Fetchone,
         Execute (CreateDatabase ''other''), Close 0]\<rparr>)"
  by (simp add: run_defs schema_def run_stmt.simps)

section \<open>Retaining and replacing\<close>




text \<open>
  C10 (replace). In a run in which the operator answers \<^verbatim>\<open>y\<close> or \<^verbatim>\<open>Y\<close>, the
  statements executed are the \<^verbatim>\<open>SELECT\<close> of the check, \<^verbatim>\<open>DROP DATABASE\<close> of
  the module's constant \<^verbatim>\<open>schema\<close>, and then a prefix of the provisioning
  statements, which start with \<^verbatim>\<open>CREATE DATABASE\<close> and \<^verbatim>\<open>USE\<close> of the parameter
  \<^verbatim>\<open>schema_name\<close>. So when \<^verbatim>\<open>schema_name\<close> differs from the constant, the
  database of the parameter is never dropped and the database of the constant is never
  created: the one dropped is not the one created.
\<close>

theorem replace_drops_constant:
  assumes run: "create_schema schema_name w = Some (r, w')"
    and y: "list_ex (\<lambda>l. lower l = ''y'') (answers (issued w w'))"
  shows "(\<exists>n. executed (issued w w') =
            [SelectSchemaName schema, DropDatabase schema] @
            take n (provisioning_statements schema_name)) \<and>
         (schema_name \<noteq> schema \<longrightarrow>
            DropDatabase schema_name \<notin> set (executed (issued w w')) \<and>
            CreateDatabase schema \<notin> set (executed (issued w w')))"
proof -
  have ex: "\<exists>n. executed (issued w w') =
            [SelectSchemaName schema, DropDatabase schema] @
            take n (provisioning_statements schema_name)"
    using run
  proof (cases rule: create_schema_cases)
    case (unconnected e)
    then show ?thesis using y connecting_projections[of "issued w w'"] by simp
  next
    case (early e db pre evs)
    then show ?thesis using y connecting_projections[of pre] by simp
  next
    case (retained db pre evs inv l)
    then show ?thesis
      using y connecting_projections[of pre] not_accepted_no_answer[of "''y''" inv] by simp
  next
    case (eof db pre evs inv)
    then show ?thesis
      using y connecting_projections[of pre] not_accepted_no_answer[of "''y''" inv] by simp
  next
    case (drop_failed e db pre evs inv l)
    then show ?thesis
      using connecting_projections[of pre] by (intro exI[of _ 0]) simp
  next
    case (provisioned db pre mid srv)
    then have "executed mid = [SelectSchemaName schema, DropDatabase schema]"
      using y connecting_projections[of pre] by (intro decided_yes[of mid]) simp_all
    then show ?thesis using provisioned connecting_projections[of pre]
      by (intro exI[of _ "length (provisioning_statements schema_name)"]) simp
  next
    case (provision_failed e db pre mid k srv)
    then have "executed mid = [SelectSchemaName schema, DropDatabase schema]"
      using y connecting_projections[of pre] by (intro decided_yes[of mid]) simp_all
    then show ?thesis using provision_failed connecting_projections[of pre]
      by (intro exI[of _ "Suc k"]) simp
  qed
  then obtain n where n: "executed (issued w w') =
      [SelectSchemaName schema, DropDatabase schema] @ take n (provisioning_statements schema_name)"
    by blast
  have sub: "set (take n (provisioning_statements schema_name)) \<subseteq>
             set (provisioning_statements schema_name)"
    by (rule set_take_subset)
  have "DropDatabase schema_name \<notin> set (provisioning_statements schema_name)"
    by (simp add: provisioning_statements_def)
  moreover have "schema_name \<noteq> schema \<Longrightarrow>
      CreateDatabase schema \<notin> set (provisioning_statements schema_name)"
    by (auto simp: provisioning_statements_def)
  ultimately show ?thesis using ex n sub by auto
qed


theorem replace_drops_constant_witness:
  "\<exists>w'. create_schema ''s''
       (start (fails_then_succeeds 0) (operator_types [''Y'']) [schema \<mapsto> provisioned_database]) =
       Some (Inr (), w') \<and>
     answers (issued (start (fails_then_succeeds 0) (operator_types [''Y''])
        [schema \<mapsto> provisioned_database]) w') = [''Y''] \<and>
     ''s'' \<noteq> schema \<and>
     executed (issued (start (fails_then_succeeds 0) (operator_types [''Y''])
        [schema \<mapsto> provisioned_database]) w') =
       [SelectSchemaName schema, DropDatabase schema] @ provisioning_statements ''s'' \<and>
     DropDatabase ''s'' \<notin> set (executed (issued (start (fails_then_succeeds 0)
        (operator_types [''Y'']) [schema \<mapsto> provisioned_database]) w')) \<and>
     CreateDatabase schema \<notin> set (executed (issued (start (fails_then_succeeds 0)
        (operator_types [''Y'']) [schema \<mapsto> provisioned_database]) w')) \<and>
     catalog (server w') schema = None \<and>
     catalog (server w') ''s'' = Some provisioned_database"
proof -
  let ?w = "start (fails_then_succeeds 0) (operator_types [''Y'']) [schema \<mapsto> provisioned_database]"
  let ?w' = "?w\<lparr>attempts := 1, consumed := 1,
       server := \<lparr>catalog = [''s'' \<mapsto> provisioned_database], current = Some ''s'', pending = []\<rparr>,
       trace := [Connected 0 None, Cursor 0, Execute (SelectSchemaName schema), Fetchone,
         Print (''Schema '' @ schema @ '' already exists.''),
         Input ''Do you want to delete it? (y/n): '' (Some ''Y''),
         Execute (DropDatabase schema),
         Print (''Schema '' @ schema @ '' deleted successfully.'')] @
         map Execute (provisioning_statements ''s'') @ [Commit 0, Close 0]\<rparr>"
  have run: "create_schema ''s'' ?w = Some (Inr (), ?w')" by (rule replace_run)
  have a: "answers (issued ?w ?w') = [''Y'']"
    by (simp add: issued_def start_def)
  then have y: "list_ex (\<lambda>l. lower l = ''y'') (answers (issued ?w ?w'))"
    by (simp add: lower_y)
  have e: "executed (issued ?w ?w') =
      [SelectSchemaName schema, DropDatabase schema] @ provisioning_statements ''s''"
    by (simp add: issued_def start_def)
  have ne: "''s'' \<noteq> schema" by (simp add: schema_def)
  from replace_drops_constant[OF run y] ne
  have "DropDatabase ''s'' \<notin> set (executed (issued ?w ?w')) \<and>
        CreateDatabase schema \<notin> set (executed (issued ?w ?w'))" by blast
  then show ?thesis using run a e ne
    by (intro exI[of _ ?w']) (simp add: start_def schema_def)
qed


section \<open>The existence check\<close>

lemma prompted_append [simp]: "prompted (xs @ ys) = (prompted xs \<or> prompted ys)"
  by (auto simp: prompted_def)

lemma prompted_steps [simp]:
  "\<not> prompted (map Execute ss)" "\<not> prompted (take n (map Execute ss))"
  "\<not> prompted (take n [Commit db])" "\<not> prompted [Close db]" "\<not> prompted [Commit db, Close db]"
  by (auto simp: prompted_def dest: in_set_takeD)

lemma decided_prompted:
  assumes "decided mid cat srv"
  shows "(prompted mid \<longrightarrow> cat schema \<noteq> None) \<and> (\<not> prompted mid \<longrightarrow> cat schema = None) \<and>
         (\<forall>q. SelectSchemaName q \<in> set (executed mid) \<longrightarrow> q = schema)"
  using assms by (auto simp: decided_def)

lemma select_in_provisioning [simp]:
  "SelectSchemaName q \<notin> set (provisioning_statements s)"
  by (simp add: provisioning_statements_def)

text \<open>
  C3 (the name the existence check asks for). Whatever \<^verbatim>\<open>schema_name\<close> is passed,
  the only \<^verbatim>\<open>SELECT\<close> on the catalog that a run executes asks for the module's
  constant \<^verbatim>\<open>schema\<close>. The outcome of the check depends on the constant alone: the
  prompt is shown only when a schema of the constant's name is in the catalog, and a run
  goes on to \<^verbatim>\<open>CREATE DATABASE schema_name\<close> without a prompt only when there is
  none, whether or not a schema named \<^verbatim>\<open>schema_name\<close> exists.
\<close>

theorem existence_check_asks_for_constant:
  assumes run: "create_schema schema_name w = Some (r, w')"
  shows "(\<forall>q. SelectSchemaName q \<in> set (executed (issued w w')) \<longrightarrow> q = schema) \<and>
         (prompted (issued w w') \<longrightarrow> catalog (server w) schema \<noteq> None) \<and>
         (\<not> prompted (issued w w') \<and> CreateDatabase schema_name \<in> set (executed (issued w w'))
            \<longrightarrow> catalog (server w) schema = None)"
  using run
proof (cases rule: create_schema_cases)
  case (unconnected e)
  then show ?thesis using connecting_projections[of "issued w w'"] by simp
next
  case (early e db pre evs)
  then show ?thesis using connecting_projections[of pre] by auto
next
  case (retained db pre evs inv l)
  then show ?thesis using connecting_projections[of pre] by simp
next
  case (eof db pre evs inv)
  then show ?thesis using connecting_projections[of pre] by simp
next
  case (drop_failed e db pre evs inv l)
  then show ?thesis using connecting_projections[of pre] by simp
next
  case (provisioned db pre mid srv)
  then show ?thesis
    using connecting_projections[of pre] decided_prompted[of mid "catalog (server w)" srv]
    by auto
next
  case (provision_failed e db pre mid k srv)
  have "SelectSchemaName q \<notin> set (take (Suc k) (provisioning_statements schema_name))" for q
    using in_set_takeD[of "SelectSchemaName q" "Suc k" "provisioning_statements schema_name"]
    by auto
  then show ?thesis
    using provision_failed connecting_projections[of pre]
      decided_prompted[of mid "catalog (server w)" srv]
    by auto
qed

theorem existence_check_asks_for_constant_witness:
  "\<exists>w'. create_schema ''other''
       (start (fails_then_succeeds 0) (operator_types []) [''other'' \<mapsto> []]) =
       Some (Inl (MySQLError ''1007 Cannot create database; database exists''), w') \<and>
     executed (issued (start (fails_then_succeeds 0) (operator_types []) [''other'' \<mapsto> []]) w') =
       [SelectSchemaName schema, CreateDatabase ''other''] \<and>
     \<not> prompted (issued (start (fails_then_succeeds 0) (operator_types []) [''other'' \<mapsto> []]) w') \<and>
     catalog (server (start (fails_then_succeeds 0) (operator_types []) [''other'' \<mapsto> []])) ''other''
       = Some [] \<and>
     catalog (server (start (fails_then_succeeds 0) (operator_types []) [''other'' \<mapsto> []])) schema
       = None"
proof -
  let ?w = "start (fails_then_succeeds 0) (operator_types []) [''other'' \<mapsto> []]"
  let ?w' = "?w\<lparr>attempts := 1,
       server := \<lparr>catalog = [''other'' \<mapsto> []], current = None, pending = []\<rparr>,
       trace := [Connected 0 None, Cursor 0, Execute (SelectSchemaName schema), Fetchone,
         Execute (CreateDatabase ''other''), Close 0]\<rparr>"
  have run: "create_schema ''other'' ?w =
      Some (Inl (MySQLError ''1007 Cannot create database; database exists''), ?w')"
    by (rule other_run)
  have e: "executed (issued ?w ?w') = [SelectSchemaName schema, CreateDatabase ''other'']"
    by (simp add: issued_def start_def)
  have p: "\<not> prompted (issued ?w ?w')"
    by (simp add: issued_def start_def prompted_def)
  from existence_check_asks_for_constant[OF run] p e
  have "catalog (server ?w) schema = None" by simp
  then show ?thesis using run e p
    by (intro exI[of _ ?w']) (simp add: start_def)
qed


section \<open>Provisioning\<close>

lemma commits_steps [simp]:
  "commits (map Execute ss) = 0" "closes (map Execute ss) = 0"
  using quiet_map_Execute[of ss] by (simp_all add: quiet_def)

lemma created_append [simp]: "created (xs @ ys) = created xs @ created ys"
  by (induction xs rule: created.induct) simp_all


lemma created_take: "\<exists>n. created (take k ss) = take n (created ss)"
proof (induction ss arbitrary: k rule: created.induct)
  case 1
  then show ?case by simp
next
  case (2 td ss)
  show ?case
  proof (cases k)
    case 0
    then show ?thesis by (intro exI[of _ 0]) simp
  next
    case (Suc j)
    from 2[of j] obtain n where "created (take j ss) = take n (created ss)" by blast
    then show ?thesis using Suc by (intro exI[of _ "Suc n"]) simp
  qed
qed (case_tac k; simp)+

lemma dependency_ordered_take:
  "dependency_ordered seen tds \<Longrightarrow> dependency_ordered seen (take n tds)"
proof (induction tds arbitrary: seen n)
  case Nil
  then show ?case by simp
next
  case (Cons td tds)
  then show ?case by (cases n) simp_all
qed

lemma created_provisioning:
  "created (provisioning_statements s) =
     [dataset, exam, hrv, inter_beat_interval, master_data, window_values]"
  by (simp add: provisioning_statements_def)

lemma six_tables_ordered:
  "dependency_ordered [] [dataset, exam, hrv, inter_beat_interval, master_data, window_values]"
  by (simp add: table_defs)

lemma decided_created:
  assumes "decided mid cat srv"
  shows "created (executed mid) = []"
  using assms by (auto simp: decided_def)

text \<open>
  C6 (dependency order). In every run, the tables created so far are a prefix of
  \<^verbatim>\<open>dataset\<close>, \<^verbatim>\<open>exam\<close>, \<^verbatim>\<open>hrv\<close>, \<^verbatim>\<open>inter_beat_interval\<close>,
  \<^verbatim>\<open>master_data\<close>, \<^verbatim>\<open>window_values\<close>, in this order; the first three declare no
  foreign key, the last three refer to the first three only; so every table a foreign key
  refers to has been created before the table that declares the key.
\<close>

theorem tables_in_dependency_order:
  assumes run: "create_schema schema_name w = Some (r, w')"
  shows "(\<exists>n. created (executed (issued w w')) =
            take n [dataset, exam, hrv, inter_beat_interval, master_data, window_values]) \<and>
         dependency_ordered [] (created (executed (issued w w'))) \<and>
         map tbl_fks [dataset, exam, hrv] = [[], [], []] \<and>
         map (map ref_table \<circ> tbl_fks) [inter_beat_interval, master_data, window_values] =
           [[''dataset'', ''exam''], [''dataset'', ''exam''], [''dataset'', ''exam'', ''hrv'']]"
proof -
  have "\<exists>n. created (executed (issued w w')) =
            take n [dataset, exam, hrv, inter_beat_interval, master_data, window_values]"
    using run
  proof (cases rule: create_schema_cases)
    case (unconnected e)
    then show ?thesis using connecting_projections[of "issued w w'"] by simp
  next
    case (early e db pre evs)
    then show ?thesis using connecting_projections[of pre] by (intro exI[of _ 0]) auto
  next
    case (retained db pre evs inv l)
    then show ?thesis using connecting_projections[of pre] by simp
  next
    case (eof db pre evs inv)
    then show ?thesis using connecting_projections[of pre] by simp
  next
    case (drop_failed e db pre evs inv l)
    then show ?thesis using connecting_projections[of pre] by simp
  next
    case (provisioned db pre mid srv)
    then have "created (executed (issued w w')) = created (provisioning_statements schema_name)"
      using connecting_projections[of pre] decided_created[of mid] by simp
    then show ?thesis by (intro exI[of _ 6]) (simp add: created_provisioning)
  next
    case (provision_failed e db pre mid k srv)
    then have "created (executed (issued w w')) =
        created (take (Suc k) (provisioning_statements schema_name))"
      using connecting_projections[of pre] decided_created[of mid] by simp
    then show ?thesis
      using created_take[of "Suc k" "provisioning_statements schema_name"]
      by (simp add: created_provisioning)
  qed
  then obtain n where n: "created (executed (issued w w')) =
      take n [dataset, exam, hrv, inter_beat_interval, master_data, window_values]" by blast
  have "dependency_ordered [] (created (executed (issued w w')))"
    unfolding n by (rule dependency_ordered_take[OF six_tables_ordered])
  moreover have "map tbl_fks [dataset, exam, hrv] = [[], [], []]"
    by (simp add: table_defs)
  moreover have "map (map ref_table \<circ> tbl_fks) [inter_beat_interval, master_data, window_values] =
           [[''dataset'', ''exam''], [''dataset'', ''exam''], [''dataset'', ''exam'', ''hrv'']]"
    by (simp add: table_defs)
  ultimately show ?thesis using n by blast
qed

theorem tables_in_dependency_order_witness:
  "\<exists>w'. create_schema ''s'' (start (fails_then_succeeds 0) (operator_types []) Map.empty) =
       Some (Inr (), w') \<and>
     created (executed (issued (start (fails_then_succeeds 0) (operator_types []) Map.empty) w')) =
       [dataset, exam, hrv, inter_beat_interval, master_data, window_values] \<and>
     dependency_ordered []
       (created (executed (issued (start (fails_then_succeeds 0) (operator_types []) Map.empty) w')))"
proof -
  let ?w = "start (fails_then_succeeds 0) (operator_types []) Map.empty"
  let ?w' = "?w\<lparr>attempts := 1,
       server := \<lparr>catalog = [''s'' \<mapsto> provisioned_database], current = Some ''s'', pending = []\<rparr>,
       trace := [Connected 0 None, Cursor 0, Execute (SelectSchemaName schema), Fetchone] @
         map Execute (provisioning_statements ''s'') @ [Commit 0, Close 0]\<rparr>"
  have run: "create_schema ''s'' ?w = Some (Inr (), ?w')" by (rule fresh_run)
  have c: "created (executed (issued ?w ?w')) =
      [dataset, exam, hrv, inter_beat_interval, master_data, window_values]"
    by (simp add: issued_def start_def created_provisioning)
  from tables_in_dependency_order[OF run] run c show ?thesis
    by (intro exI[of _ ?w']) simp
qed






section \<open>The prompt\<close>












end
